theory Spec2Isabelle
  imports
    Complex_Main
    "HOL-Library.Word"
    "HOL-Library.Multiset"
    "HOL-Library.List_Lexorder"
begin

unbundle bit_operations_syntax

section \<open>The mesh comparator \<^verbatim>\<open>python/compare.py\<close>\<close>

text \<open>
  The script reads two HDF5 files, rebuilds for each the array of cells (every cell is
  the tuple of the coordinates of its vertices) and the per-cell fields, sorts the cells
  of both files by the bytes of their coordinates and compares the two files in that
  common order: the coordinates exactly, the fields up to a tolerance.

  What the embedding keeps and what it leaves out:
  \<^item> a coordinate is the stored bit pattern of a float64 (\<open>64 word\<close>), because the sort
    key of the script is the byte string of the coordinates; the comparison \<^verbatim>\<open>!=\<close> of
    numpy on such values is written out on the bit patterns (a NaN differs from
    everything, the two zeros are equal);
  \<^item> a field value is a float64 as well, again as its bit pattern. The script subtracts
    two of them, takes the absolute value and compares it with the tolerance: these three
    operations of IEEE 754 binary64 are written out below, the subtraction with its
    rounding to the nearest value, ties to even. A field is a one-dimensional dataset of
    float64, one scalar per cell; a field with several components per cell, or of
    another number type, is outside the model;
  \<^item> a connectivity entry is an integer of 64 bits, as its bit pattern. numpy casts an
    array of indices to its index type, the signed integer of 64 bits, so the index it
    uses is the signed reading of the pattern whether the dataset is stored signed or
    unsigned; an integer of fewer bits is widened without a change of value and is
    covered by its image;
  \<^item> a dataset of rank two carries its second dimension beside its rows, so that the
    shape of an array without rows is still known;
  \<^item> what the script prints, and the files it opens, are events of a trace; a
    \<^verbatim>\<open>sys.exit\<close> and an uncaught exception are values of the type \<open>abort\<close>.
\<close>

subsection \<open>Values, datasets and the mesh group\<close>

type_synonym f64 = "64 word"
type_synonym byte = "8 word"

text \<open>A point dataset of shape \<open>(length rows, dim)\<close> and a connectivity dataset of shape
  \<open>(length rows, width)\<close>.\<close>

record points_ds =
  pdim :: nat
  prows :: "f64 list list"

type_synonym index = "64 word"

record conn_ds =
  cwidth :: nat
  crows :: "index list list"

text \<open>A group of named one-dimensional datasets, in the order in which its keys are
  iterated. The same type stands for the Python dictionary that \<^verbatim>\<open>construct_fields\<close>
  builds (insertion order).\<close>

type_synonym fieldmap = "(string \<times> f64 list) list"

text \<open>A block group: each of its three entries may be absent.\<close>

record block =
  b_points :: "points_ds option"
  b_connectivity :: "conn_ds option"
  b_fields :: "fieldmap option"

text \<open>
  The group \<^verbatim>\<open>mesh\<close> of a file. The script tells the two layouts apart by
  \<^verbatim>\<open>"points" in mesh.keys()\<close>: \<open>Single\<close> is a group with a direct point dataset
  (and perhaps a connectivity dataset and a field group), \<open>Multi\<close> a group without one,
  whose entries are the named sub-blocks in the order of \<^verbatim>\<open>mesh.keys()\<close>.
\<close>

datatype mesh =
  Single points_ds "conn_ds option" "fieldmap option"
| Multi "(string \<times> block) list"

text \<open>The array of cells, of shape \<open>(length cells, nverts, sdim)\<close>.\<close>

type_synonym cell = "f64 list list"

record cell_array =
  nverts :: nat
  sdim :: nat
  cells :: "cell list"

definition shape :: "cell_array \<Rightarrow> nat \<times> nat \<times> nat" where
  "shape a = (length (cells a), nverts a, sdim a)"

datatype py_error = KeyError | IndexError | ValueError | TypeError | OSError

subsection \<open>\<^verbatim>\<open>construct_cells\<close>\<close>

text \<open>
  \<^verbatim>\<open>points[:][conn[:]]\<close>: every connectivity entry selects a row of the point array.
  The index is the signed reading \<open>sint\<close> of the entry. numpy counts a negative index
  from the end and raises IndexError outside \<open>[-n, n)\<close>, where \<open>n\<close> is the number of
  points.
\<close>

definition valid_index :: "nat \<Rightarrow> int \<Rightarrow> bool" where
  "valid_index n i \<longleftrightarrow> - int n \<le> i \<and> i < int n"

definition row_of :: "f64 list list \<Rightarrow> int \<Rightarrow> f64 list" where
  "row_of rows i = rows ! nat (if i < 0 then int (length rows) + i else i)"

definition gather :: "points_ds \<Rightarrow> conn_ds \<Rightarrow> py_error + cell_array" where
  "gather p c =
     (if list_all (list_all (\<lambda>w. valid_index (length (prows p)) (sint w))) (crows c)
      then Inr \<lparr>nverts = cwidth c, sdim = pdim p,
                cells = map (map (\<lambda>w. row_of (prows p) (sint w))) (crows c)\<rparr>
      else Inl IndexError)"

text \<open>\<^verbatim>\<open>np.concatenate((output, new))\<close> along the first axis: the other dimensions must
  agree, or numpy raises ValueError.\<close>

definition concatenate :: "cell_array \<Rightarrow> cell_array \<Rightarrow> py_error + cell_array" where
  "concatenate a b =
     (if nverts a = nverts b \<and> sdim a = sdim b
      then Inr (a\<lparr>cells := cells a @ cells b\<rparr>)
      else Inl ValueError)"

text \<open>The gathered cells of one block; a missing \<^verbatim>\<open>points\<close> or \<^verbatim>\<open>connectivity\<close>
  entry is a KeyError, the point entry being read first.\<close>

definition block_cells :: "block \<Rightarrow> py_error + cell_array" where
  "block_cells b =
     (case b_points b of
        None \<Rightarrow> Inl KeyError
      | Some p \<Rightarrow>
          (case b_connectivity b of
             None \<Rightarrow> Inl KeyError
           | Some c \<Rightarrow> gather p c))"

text \<open>The loop over the sub-blocks; \<open>output\<close> is \<open>None\<close> until the first block has been
  gathered, as the variable of the script is.\<close>

fun cells_loop :: "cell_array option \<Rightarrow> (string \<times> block) list \<Rightarrow> py_error + cell_array option" where
  "cells_loop output [] = Inr output"
| "cells_loop output ((k, b) # rest) =
     (case block_cells b of
        Inl e \<Rightarrow> Inl e
      | Inr new \<Rightarrow>
          (case output of
             None \<Rightarrow> cells_loop (Some new) rest
           | Some out \<Rightarrow>
               (case concatenate out new of
                  Inl e \<Rightarrow> Inl e
                | Inr out' \<Rightarrow> cells_loop (Some out') rest)))"

fun construct_cells :: "mesh \<Rightarrow> py_error + cell_array option" where
  "construct_cells (Single p conn flds) =
     (case conn of
        None \<Rightarrow> Inl KeyError
      | Some c \<Rightarrow> map_sum id Some (gather p c))"
| "construct_cells (Multi blocks) = cells_loop None blocks"

subsection \<open>\<^verbatim>\<open>construct_fields\<close>\<close>

text \<open>One pass of the inner loop: a new name is appended to the dictionary, a known
  one has the values of this block concatenated to its own.\<close>

definition add_field :: "fieldmap \<Rightarrow> string \<times> f64 list \<Rightarrow> fieldmap" where
  "add_field output fv =
     (if fst fv \<notin> set (map fst output) then output @ [fv]
      else map (\<lambda>(g, w). if g = fst fv then (g, w @ snd fv) else (g, w)) output)"

definition add_block :: "fieldmap \<Rightarrow> string \<times> block \<Rightarrow> fieldmap" where
  "add_block output kb =
     (case b_fields (snd kb) of
        None \<Rightarrow> output
      | Some fm \<Rightarrow> foldl add_field output fm)"

fun construct_fields :: "mesh \<Rightarrow> fieldmap" where
  "construct_fields (Single p conn flds) =
     (case flds of None \<Rightarrow> [] | Some fm \<Rightarrow> fm)"
| "construct_fields (Multi blocks) = foldl add_block [] blocks"

subsection \<open>Sort keys, \<^verbatim>\<open>argsort\<close> and the comparisons of numpy\<close>

text \<open>\<^verbatim>\<open>c.tobytes()\<close>: the bytes of the coordinates of a cell in row-major order, each
  float64 in the byte order of the machine (little-endian).\<close>

definition f64_bytes :: "f64 \<Rightarrow> byte list" where
  "f64_bytes w = map (\<lambda>k. ucast (drop_bit (8 * k) w)) [0..<8]"

definition tobytes :: "cell \<Rightarrow> byte list" where
  "tobytes c = concat (map (\<lambda>v. concat (map f64_bytes v)) c)"

text \<open>
  \<^verbatim>\<open>np.argsort\<close> on the array of byte strings, which numpy orders as lists of unsigned
  bytes. The default sort of numpy is not stable: it sorts an array of at most 16 keys by
  insertion, which keeps equal keys in their original order, and need not keep them so
  in a longer array. The model keeps equal keys in their original order. When the keys
  are distinct the index array is the same for every sort.
\<close>

definition argsort :: "'a::linorder list \<Rightarrow> nat list" where
  "argsort ks = sort_key (\<lambda>i. ks ! i) [0..<length ks]"

text \<open>The index array of a cell array: \<^verbatim>\<open>np.argsort(np.asarray([c.tobytes() for c in cells]))\<close>.\<close>

definition sort_index :: "cell list \<Rightarrow> nat list" where
  "sort_index cs = argsort (map tobytes cs)"

text \<open>\<^verbatim>\<open>cells[index]\<close> for an index array that \<^verbatim>\<open>argsort\<close> made for an array of the same
  length: every index is in range.\<close>

definition reorder :: "'a list \<Rightarrow> nat list \<Rightarrow> 'a list" where
  "reorder xs idx = map (\<lambda>i. xs ! i) idx"

text \<open>\<^verbatim>\<open>a != b\<close> on two float64 values, read off their bit patterns.\<close>

definition f64_isnan :: "f64 \<Rightarrow> bool" where
  "f64_isnan w \<longleftrightarrow>
     w AND 0x7FF0000000000000 = 0x7FF0000000000000 \<and> w AND 0x000FFFFFFFFFFFFF \<noteq> 0"

definition f64_iszero :: "f64 \<Rightarrow> bool" where
  "f64_iszero w \<longleftrightarrow> w AND 0x7FFFFFFFFFFFFFFF = 0"

definition f64_ne :: "f64 \<Rightarrow> f64 \<Rightarrow> bool" where
  "f64_ne a b \<longleftrightarrow> f64_isnan a \<or> f64_isnan b \<or> (a \<noteq> b \<and> \<not> (f64_iszero a \<and> f64_iszero b))"

text \<open>\<^verbatim>\<open>np.any(xs != ys)\<close> on two arrays of cells of one shape.\<close>

definition any_ne :: "cell list \<Rightarrow> cell list \<Rightarrow> bool" where
  "any_ne xs ys =
     list_ex (\<lambda>(c, d). list_ex (\<lambda>(v, w). list_ex (\<lambda>(a, b). f64_ne a b) (zip v w)) (zip c d))
       (zip xs ys)"

text \<open>\<^verbatim>\<open>v[index]\<close> with an array of indices that are not negative: IndexError as soon
  as one index is not below the length.\<close>

definition take_idx :: "'a list \<Rightarrow> nat list \<Rightarrow> py_error + 'a list" where
  "take_idx v idx =
     (if list_all (\<lambda>i. i < length v) idx then Inr (map (\<lambda>i. v ! i) idx) else Inl IndexError)"

subsection \<open>Float64 arithmetic of the field comparison\<close>

text \<open>
  A float64 has a sign bit, an exponent field \<open>e\<close> of 11 bits and a fraction \<open>f\<close> of 52
  bits. A finite value is \<open>m * 2 ^ u\<close> times \<open>2 ^ (-1074)\<close>, with its sign, for the mantissa
  \<open>m\<close> (\<open>f\<close> when \<open>e = 0\<close>, and \<open>2 ^ 52 + f\<close> otherwise) and the scale \<open>u\<close> (\<open>e - 1\<close>, and \<open>0\<close>
  when \<open>e = 0\<close>). The exponent field \<open>2047\<close> holds the infinities (fraction \<open>0\<close>) and the
  NaNs.
\<close>

definition f64_isinf :: "f64 \<Rightarrow> bool" where
  "f64_isinf w \<longleftrightarrow> w AND 0x7FFFFFFFFFFFFFFF = 0x7FF0000000000000"

definition f64_sign :: "f64 \<Rightarrow> bool" where
  "f64_sign w \<longleftrightarrow> bit w 63"

definition f64_expo :: "f64 \<Rightarrow> nat" where
  "f64_expo w = unat (drop_bit 52 w AND 0x7FF)"

definition f64_frac :: "f64 \<Rightarrow> int" where
  "f64_frac w = uint (w AND 0x000FFFFFFFFFFFFF)"

definition f64_mant :: "f64 \<Rightarrow> int" where
  "f64_mant w = (if f64_expo w = 0 then f64_frac w else 2 ^ 52 + f64_frac w)"

definition f64_scale :: "f64 \<Rightarrow> nat" where
  "f64_scale w = f64_expo w - 1"

text \<open>The number of binary digits of a positive integer.\<close>

function bit_length :: "int \<Rightarrow> nat" where
  "bit_length n = (if n \<le> 0 then 0 else Suc (bit_length (n div 2)))"
  by auto

termination
  by (relation "measure nat") auto

declare bit_length.simps [simp del]

text \<open>
  The float64 nearest to \<open>a * 2 ^ u\<close> times \<open>2 ^ (-1074)\<close> for a positive integer \<open>a\<close>, ties
  to the even mantissa, with the sign bit clear. A number of at most 53 digits is a
  mantissa as it is, once shifted to the left as far as the scale allows. A longer one
  loses its last \<open>k\<close> digits, and is rounded up when what is lost is more than half a
  unit of the last digit kept, or is half a unit and the digit kept is odd. The pattern
  of a finite float64 is its scale times \<open>2 ^ 52\<close> plus its mantissa (the leading digit of
  a mantissa of 53 digits adds one to the exponent field), which takes the carry of the
  rounding into the exponent; what reaches the pattern of infinity is infinity.
\<close>

definition f64_round :: "int \<Rightarrow> nat \<Rightarrow> f64" where
  "f64_round a u =
     (let l = bit_length a in
      if l \<le> 53 then
        (let sh = min (53 - l) u
         in word_of_int (min (int (u - sh) * 2 ^ 52 + a * 2 ^ sh) 0x7FF0000000000000))
      else
        (let k = l - 53;
             q = a div 2 ^ k;
             r = a mod 2 ^ k;
             q' = (if 2 * r > 2 ^ k \<or> (2 * r = 2 ^ k \<and> odd q) then q + 1 else q)
         in word_of_int (min (int (u + k) * 2 ^ 52 + q') 0x7FF0000000000000)))"

definition f64_neg :: "f64 \<Rightarrow> f64" where
  "f64_neg w = w XOR 0x8000000000000000"

text \<open>
  \<^verbatim>\<open>x - y\<close> on float64 values. A NaN operand gives a NaN, and so does the difference
  of two infinities of one sign; which NaN the processor returns is not fixed, and the
  script shows every NaN as \<^verbatim>\<open>nan\<close>: the model returns the quiet NaN without payload.
  A zero taken from a value, or a value taken from zero, is exact. Two other finite
  values are brought to their smaller scale, where the difference of the mantissas is
  exact, and that difference is rounded; an exact zero is the positive zero.
\<close>

definition f64_sub :: "f64 \<Rightarrow> f64 \<Rightarrow> f64" where
  "f64_sub x y =
     (if f64_isnan x \<or> f64_isnan y then 0x7FF8000000000000
      else if f64_isinf x then
        (if f64_isinf y \<and> f64_sign x = f64_sign y then 0x7FF8000000000000 else x)
      else if f64_isinf y then f64_neg y
      else if f64_iszero y then
        (if f64_iszero x \<and> \<not> (f64_sign x \<and> \<not> f64_sign y) then 0 else x)
      else if f64_iszero x then f64_neg y
      else
        (let u = min (f64_scale x) (f64_scale y);
             a = f64_mant x * 2 ^ (f64_scale x - u);
             b = f64_mant y * 2 ^ (f64_scale y - u);
             d = (if f64_sign x then - a else a) - (if f64_sign y then - b else b)
         in if d = 0 then 0
            else if d < 0 then f64_neg (f64_round (- d) u)
            else f64_round d u))"

text \<open>\<^verbatim>\<open>np.abs\<close> clears the sign bit. \<^verbatim>\<open>a > b\<close> is false as soon as one side is a NaN;
  otherwise the values compare as their patterns do, read as sign and magnitude (the
  two zeros are equal).\<close>

definition f64_abs :: "f64 \<Rightarrow> f64" where
  "f64_abs w = w AND 0x7FFFFFFFFFFFFFFF"

definition f64_key :: "f64 \<Rightarrow> int" where
  "f64_key w = (if f64_sign w then - uint (f64_abs w) else uint (f64_abs w))"

definition f64_gt :: "f64 \<Rightarrow> f64 \<Rightarrow> bool" where
  "f64_gt a b \<longleftrightarrow> \<not> f64_isnan a \<and> \<not> f64_isnan b \<and> f64_key a > f64_key b"

text \<open>\<^verbatim>\<open>a <= b\<close>, which is false as well when one side is a NaN.\<close>

definition f64_le :: "f64 \<Rightarrow> f64 \<Rightarrow> bool" where
  "f64_le a b \<longleftrightarrow> \<not> f64_isnan a \<and> \<not> f64_isnan b \<and> f64_key a \<le> f64_key b"

text \<open>\<^verbatim>\<open>tol = 1e-14\<close>: the float64 that Python reads from this literal, the nearest to
  \<open>1 / 10 ^ 14\<close>. Its value is \<open>6338253001141147 / 2 ^ 99\<close>.\<close>

definition tol :: f64 where
  "tol = 0x3D06849B86A12B9B"

text \<open>The absolute difference that the script compares with the tolerance.\<close>

definition abs_diff :: "f64 \<Rightarrow> f64 \<Rightarrow> f64" where
  "abs_diff x y = f64_abs (f64_sub x y)"

subsection \<open>Output and termination\<close>

datatype event =
  Opened string
| Print string
| PrintValues "f64 list" "f64 list" "f64 list"
| PrintCells "cell list" "cell list"

text \<open>\<^verbatim>\<open>sys.exit(msg)\<close> writes \<open>msg\<close> to the error stream and ends the process with status
  1; \<^verbatim>\<open>sys.exit()\<close> ends it with status 0; an exception that nobody catches ends it
  with status 1.\<close>

datatype abort = SysExit "string option" | Uncaught py_error

type_synonym run = "event list \<times> (abort + unit)"

fun exit_status :: "abort + unit \<Rightarrow> nat" where
  "exit_status (Inr u) = 0"
| "exit_status (Inl (SysExit None)) = 0"
| "exit_status (Inl (SysExit (Some msg))) = 1"
| "exit_status (Inl (Uncaught e)) = 1"

definition digit :: "nat \<Rightarrow> char" where
  "digit d = ''0123456789'' ! d"

fun str_nat :: "nat \<Rightarrow> string" where
  "str_nat n = (if n < 10 then [digit n] else str_nat (n div 10) @ [digit (n mod 10)])"

declare str_nat.simps [simp del]

definition str_int :: "int \<Rightarrow> string" where
  "str_int i = (if i < 0 then ''-'' @ str_nat (nat (- i)) else str_nat (nat i))"

definition shape_str :: "nat \<times> nat \<times> nat \<Rightarrow> string" where
  "shape_str s =
     (case s of (n, v, d) \<Rightarrow>
        ''('' @ str_nat n @ '', '' @ str_nat v @ '', '' @ str_nat d @ '')'')"

definition differ_msg :: "string \<Rightarrow> string \<Rightarrow> string" where
  "differ_msg file1 file2 = ''files '' @ file1 @ '' and '' @ file2 @ '' are different''"

definition same_msg :: "string \<Rightarrow> string \<Rightarrow> string" where
  "same_msg file1 file2 = ''files '' @ file1 @ '' and '' @ file2 @ '' are the same''"

subsection \<open>\<^verbatim>\<open>compare_meshes\<close>\<close>

text \<open>The body of the loop over \<^verbatim>\<open>field1.keys()\<close>, for the field \<open>f\<close>.\<close>

definition check_field ::
  "string \<Rightarrow> string \<Rightarrow> cell list \<Rightarrow> cell list \<Rightarrow> nat list \<Rightarrow> nat list \<Rightarrow>
   fieldmap \<Rightarrow> fieldmap \<Rightarrow> string \<Rightarrow> run" where
  "check_field file1 file2 cells1 cells2 index1 index2 field1 field2 f =
     (case map_of field2 f of
        None \<Rightarrow>
          ([Print (f @ '' is not in second file'')],
           Inl (SysExit (Some (differ_msg file1 file2))))
      | Some v2 \<Rightarrow>
          (case map_of field1 f of
             None \<Rightarrow> ([], Inl (Uncaught KeyError))
           | Some v1 \<Rightarrow>
               (case take_idx v1 index1 of
                  Inl e \<Rightarrow> ([], Inl (Uncaught e))
                | Inr a1 \<Rightarrow>
                    (case take_idx v2 index2 of
                       Inl e \<Rightarrow> ([], Inl (Uncaught e))
                     | Inr a2 \<Rightarrow>
                         (let diff = map2 abs_diff a1 a2 in
                          if list_ex (\<lambda>d. f64_gt d tol) diff then
                            (let ind = filter (\<lambda>i. f64_gt (diff ! i) tol) [0..<length diff];
                                 i1 = map (\<lambda>i. index1 ! i) ind;
                                 i2 = map (\<lambda>i. index2 ! i) ind
                             in ([PrintValues (map (\<lambda>i. v1 ! i) i1) (map (\<lambda>i. v2 ! i) i2)
                                    (map2 abs_diff
                                       (map (\<lambda>i. v1 ! i) i1) (map (\<lambda>i. v2 ! i) i2)),
                                  PrintCells (map (\<lambda>i. cells1 ! i) i1) (map (\<lambda>i. cells2 ! i) i2),
                                  Print (f @ '' is not the same'')],
                                 Inl (SysExit None)))
                          else ([], Inr ()))))))"

text \<open>The loop: the first field that ends the process ends the loop.\<close>

fun check_fields ::
  "string \<Rightarrow> string \<Rightarrow> cell list \<Rightarrow> cell list \<Rightarrow> nat list \<Rightarrow> nat list \<Rightarrow>
   fieldmap \<Rightarrow> fieldmap \<Rightarrow> string list \<Rightarrow> run" where
  "check_fields file1 file2 cells1 cells2 index1 index2 field1 field2 [] = ([], Inr ())"
| "check_fields file1 file2 cells1 cells2 index1 index2 field1 field2 (f # rest) =
     (case check_field file1 file2 cells1 cells2 index1 index2 field1 field2 f of
        (out, Inl a) \<Rightarrow> (out, Inl a)
      | (out, Inr u) \<Rightarrow>
          (case check_fields file1 file2 cells1 cells2 index1 index2 field1 field2 rest of
             (out', r) \<Rightarrow> (out @ out', r)))"

text \<open>
  \<^verbatim>\<open>compare_meshes\<close> once both \<^verbatim>\<open>mesh\<close> groups are at hand. Both cell arrays are built
  before either is used; a mesh group without any sub-block leaves \<^verbatim>\<open>None\<close>, over which
  the list comprehension of the sort keys raises TypeError.
\<close>

definition compare_loaded :: "string \<Rightarrow> string \<Rightarrow> mesh \<Rightarrow> mesh \<Rightarrow> run" where
  "compare_loaded file1 file2 mesh1 mesh2 =
     (case construct_cells mesh1 of
        Inl e \<Rightarrow> ([], Inl (Uncaught e))
      | Inr o1 \<Rightarrow>
     (case construct_cells mesh2 of
        Inl e \<Rightarrow> ([], Inl (Uncaught e))
      | Inr o2 \<Rightarrow>
     (case o1 of
        None \<Rightarrow> ([], Inl (Uncaught TypeError))
      | Some cells1 \<Rightarrow>
     (case o2 of
        None \<Rightarrow> ([], Inl (Uncaught TypeError))
      | Some cells2 \<Rightarrow>
       (let index1 = sort_index (cells cells1);
            index2 = sort_index (cells cells2)
        in
          if shape cells1 \<noteq> shape cells2 then
            ([Print ''shape are not compatibles'',
              Print (shape_str (shape cells1) @ '' vs '' @ shape_str (shape cells2))],
             Inl (SysExit (Some (differ_msg file1 file2))))
          else if any_ne (reorder (cells cells1) index1) (reorder (cells cells2) index2) then
            ([Print ''cells are not the same''],
             Inl (SysExit (Some (differ_msg file1 file2))))
          else
            (let field1 = construct_fields mesh1;
                 field2 = construct_fields mesh2
             in case check_fields file1 file2 (cells cells1) (cells cells2) index1 index2
                       field1 field2 (map fst field1) of
                  (out, Inl a) \<Rightarrow> (out, Inl a)
                | (out, Inr u) \<Rightarrow> (out @ [Print (same_msg file1 file2)], Inr ())))))))"

text \<open>Both checks on the cell arrays pass: the shapes are equal and no coordinate differs
  after sorting.\<close>

definition cells_agree :: "cell_array \<Rightarrow> cell_array \<Rightarrow> bool" where
  "cells_agree c1 c2 \<longleftrightarrow>
     shape c1 = shape c2
     \<and> \<not> any_ne (reorder (cells c1) (sort_index (cells c1)))
                (reorder (cells c2) (sort_index (cells c2)))"

text \<open>
  The files: a name leads to nothing (the file cannot be opened: OSError), to a file
  without a \<^verbatim>\<open>mesh\<close> entry (KeyError) or to the mesh group of the file.
\<close>

type_synonym files = "string \<Rightarrow> mesh option option"

definition open_mesh :: "files \<Rightarrow> string \<Rightarrow> py_error + mesh" where
  "open_mesh fs name =
     (case fs name of
        None \<Rightarrow> Inl OSError
      | Some None \<Rightarrow> Inl KeyError
      | Some (Some m) \<Rightarrow> Inr m)"

definition compare_meshes :: "files \<Rightarrow> string \<Rightarrow> string \<Rightarrow> run" where
  "compare_meshes fs file1 file2 =
     (case open_mesh fs file1 of
        Inl e \<Rightarrow> ([Opened file1], Inl (Uncaught e))
      | Inr mesh1 \<Rightarrow>
          (case open_mesh fs file2 of
             Inl e \<Rightarrow> ([Opened file1, Opened file2], Inl (Uncaught e))
           | Inr mesh2 \<Rightarrow>
               (case compare_loaded file1 file2 mesh1 mesh2 of
                  (out, r) \<Rightarrow> ([Opened file1, Opened file2] @ out, r))))"

subsection \<open>The script\<close>

text \<open>The parsed command line.\<close>

record args =
  a_file1 :: string
  a_file2 :: string
  a_start :: "int option"
  a_end :: "int option"

text \<open>The body of the loop of range mode, for the index \<open>i\<close>.\<close>

definition compare_index :: "files \<Rightarrow> string \<Rightarrow> string \<Rightarrow> int \<Rightarrow> run" where
  "compare_index fs f1 f2 i =
     compare_meshes fs (f1 @ str_int i @ ''.h5'') (f2 @ str_int i @ ''.h5'')"

text \<open>The loop \<^verbatim>\<open>for i in range(args.start, args.end + 1)\<close>, over the list of its
  indices: a call that ends the process ends the loop.\<close>

fun run_range :: "files \<Rightarrow> string \<Rightarrow> string \<Rightarrow> int list \<Rightarrow> run" where
  "run_range fs f1 f2 [] = ([], Inr ())"
| "run_range fs f1 f2 (i # rest) =
     (case compare_index fs f1 f2 i of
        (out, Inl a) \<Rightarrow> (out, Inl a)
      | (out, Inr u) \<Rightarrow>
          (case run_range fs f1 f2 rest of (out', r) \<Rightarrow> (out @ out', r)))"

definition main :: "files \<Rightarrow> args \<Rightarrow> run" where
  "main fs a =
     (case a_start a of
        Some s \<Rightarrow>
          (case a_end a of
             Some e \<Rightarrow> run_range fs (a_file1 a) (a_file2 a) [s..e]
           | None \<Rightarrow> compare_meshes fs (a_file1 a @ ''.h5'') (a_file2 a @ ''.h5''))
      | None \<Rightarrow> compare_meshes fs (a_file1 a @ ''.h5'') (a_file2 a @ ''.h5''))"

subsection \<open>Example meshes\<close>

text \<open>
  The four corners of the unit square (\<open>0x3FF0000000000000\<close> is the float64 \<open>1.0\<close>) and
  two triangles on them, with the pressures \<open>1.0\<close> and \<open>2.0\<close> (\<open>0x4000000000000000\<close>).
  \<open>mesh_b\<close> is \<open>mesh_a\<close> with its two cells exchanged and the pressure exchanged with
  them; in \<open>mesh_c\<close> the pressure \<open>1.0\<close> of \<open>mesh_b\<close> has become \<open>1.0 + 2e-14\<close>, which is the
  float64 \<open>0x3FF000000000005A\<close>; \<open>mesh_one\<close> has the first triangle only.
\<close>

definition square :: points_ds where
  "square = \<lparr>pdim = 2, prows =
     [[0, 0], [0x3FF0000000000000, 0], [0, 0x3FF0000000000000],
      [0x3FF0000000000000, 0x3FF0000000000000]]\<rparr>"

definition conn_a :: conn_ds where
  "conn_a = \<lparr>cwidth = 3, crows = [[0, 1, 2], [1, 3, 2]]\<rparr>"

definition mesh_a :: mesh where
  "mesh_a = Single square (Some conn_a)
     (Some [(''pressure'', [0x3FF0000000000000, 0x4000000000000000])])"

definition mesh_b :: mesh where
  "mesh_b = Single square (Some \<lparr>cwidth = 3, crows = [[1, 3, 2], [0, 1, 2]]\<rparr>)
     (Some [(''pressure'', [0x4000000000000000, 0x3FF0000000000000])])"

definition mesh_c :: mesh where
  "mesh_c = Single square (Some \<lparr>cwidth = 3, crows = [[1, 3, 2], [0, 1, 2]]\<rparr>)
     (Some [(''pressure'', [0x4000000000000000, 0x3FF000000000005A])])"

definition mesh_one :: mesh where
  "mesh_one = Single square (Some \<lparr>cwidth = 3, crows = [[0, 1, 2]]\<rparr>)
     (Some [(''pressure'', [0x3FF0000000000000])])"

text \<open>The cell array of \<open>mesh_a\<close>, and meshes on the same cells with other fields: \<open>p\<close> and
  \<open>q\<close>, \<open>p\<close> alone, \<open>p\<close> and \<open>r\<close>, none. The values are \<open>1.0\<close> and \<open>2.0\<close> for \<open>p\<close>, \<open>3.0\<close> and
  \<open>4.0\<close> for \<open>q\<close>, \<open>9.0\<close> twice for \<open>r\<close>.\<close>

definition cells_a :: cell_array where
  "cells_a = \<lparr>nverts = 3, sdim = 2, cells =
     [[[0, 0], [0x3FF0000000000000, 0], [0, 0x3FF0000000000000]],
      [[0x3FF0000000000000, 0], [0x3FF0000000000000, 0x3FF0000000000000],
       [0, 0x3FF0000000000000]]]\<rparr>"

definition mesh_pq :: mesh where
  "mesh_pq = Single square (Some conn_a)
     (Some [(''p'', [0x3FF0000000000000, 0x4000000000000000]),
            (''q'', [0x4008000000000000, 0x4010000000000000])])"

definition mesh_p :: mesh where
  "mesh_p = Single square (Some conn_a)
     (Some [(''p'', [0x3FF0000000000000, 0x4000000000000000])])"

definition mesh_pr :: mesh where
  "mesh_pr = Single square (Some conn_a)
     (Some [(''p'', [0x3FF0000000000000, 0x4000000000000000]),
            (''r'', [0x4022000000000000, 0x4022000000000000])])"

definition mesh_none :: mesh where
  "mesh_none = Single square (Some conn_a) None"

definition field_files :: files where
  "field_files name =
     (if name = ''pq.h5'' then Some (Some mesh_pq)
      else if name \<in> set [''p.h5'', ''p2.h5''] then Some (Some mesh_p)
      else if name = ''none.h5'' then Some (Some mesh_none)
      else None)"

text \<open>Files for a run over the indices 0 to 2: the two files of index 1 differ in
  shape, the others hold the same mesh up to the order of the cells.\<close>

definition range_files :: files where
  "range_files name =
     (if name = ''x1.h5'' then Some (Some mesh_one)
      else if name \<in> set [''x0.h5'', ''x2.h5'', ''y1.h5''] then Some (Some mesh_a)
      else if name \<in> set [''y0.h5'', ''y2.h5''] then Some (Some mesh_b)
      else None)"

definition example_files :: files where
  "example_files name =
     (if name = ''a.h5'' then Some (Some mesh_a)
      else if name = ''b.h5'' then Some (Some mesh_b)
      else if name = ''c.h5'' then Some (Some mesh_c)
      else if name = ''one.h5'' then Some (Some mesh_one)
      else None)"

text \<open>
  Meshes on the cells of \<open>mesh_a\<close> for the tolerance of the field comparison. The second
  pressure is \<open>2.0\<close> throughout; the first is \<open>1e-14\<close>, the tolerance itself, in
  \<open>mesh_tol\<close>, zero in \<open>mesh_zero\<close>, \<open>1e-13\<close> (\<open>0x3D3C25C268497682\<close>) in \<open>mesh_13\<close> and a NaN
  in \<open>mesh_nan\<close>.
\<close>

definition mesh_tol :: mesh where
  "mesh_tol = Single square (Some conn_a)
     (Some [(''pressure'', [0x3D06849B86A12B9B, 0x4000000000000000])])"

definition mesh_zero :: mesh where
  "mesh_zero = Single square (Some conn_a)
     (Some [(''pressure'', [0, 0x4000000000000000])])"

definition mesh_13 :: mesh where
  "mesh_13 = Single square (Some conn_a)
     (Some [(''pressure'', [0x3D3C25C268497682, 0x4000000000000000])])"

definition mesh_nan :: mesh where
  "mesh_nan = Single square (Some conn_a)
     (Some [(''pressure'', [0x7FF8000000000000, 0x4000000000000000])])"

definition tolerance_files :: files where
  "tolerance_files name =
     (if name = ''a.h5'' then Some (Some mesh_a)
      else if name = ''t.h5'' then Some (Some mesh_tol)
      else if name = ''z.h5'' then Some (Some mesh_zero)
      else if name = ''u.h5'' then Some (Some mesh_13)
      else if name = ''nan.h5'' then Some (Some mesh_nan)
      else None)"

subsection \<open>Concatenation over the sub-blocks\<close>

text \<open>
  What the specification says of a mesh of several sub-blocks, written after its words
  and not after the code: the field mapping holds, for every field name that some
  sub-block has, the values of that field in the sub-blocks that have it, concatenated in
  the order of the sub-blocks; the names stand in the order in which the sub-blocks
  meet them first. \<open>block_names\<close> and \<open>block_values\<close> read one sub-block, \<open>concat_fields\<close>
  is the mapping of the whole mesh.
\<close>

definition block_names :: "block \<Rightarrow> string list" where
  "block_names b = (case b_fields b of None \<Rightarrow> [] | Some fm \<Rightarrow> map fst fm)"

definition values_of :: "fieldmap \<Rightarrow> string \<Rightarrow> f64 list" where
  "values_of fm f = (case map_of fm f of None \<Rightarrow> [] | Some v \<Rightarrow> v)"

definition block_values :: "string \<Rightarrow> block \<Rightarrow> f64 list" where
  "block_values f b = (case b_fields b of None \<Rightarrow> [] | Some fm \<Rightarrow> values_of fm f)"

fun first_seen :: "'a list \<Rightarrow> 'a list" where
  "first_seen [] = []"
| "first_seen (x # xs) = x # filter (\<lambda>y. y \<noteq> x) (first_seen xs)"

definition concat_fields :: "(string \<times> block) list \<Rightarrow> fieldmap" where
  "concat_fields bs =
     map (\<lambda>f. (f, concat (map (\<lambda>kb. block_values f (snd kb)) bs)))
       (first_seen (concat (map (\<lambda>kb. block_names (snd kb)) bs)))"

text \<open>Two sub-blocks that hold the two cells of \<open>mesh_a\<close>, one each, with their
  pressures.\<close>

definition two_blocks :: "(string \<times> block) list" where
  "two_blocks =
     [(''block0'',
       \<lparr>b_points = Some square,
        b_connectivity = Some \<lparr>cwidth = 3, crows = [[0, 1, 2]]\<rparr>,
        b_fields = Some [(''pressure'', [0x3FF0000000000000])]\<rparr>),
      (''block1'',
       \<lparr>b_points = Some square,
        b_connectivity = Some \<lparr>cwidth = 3, crows = [[1, 3, 2]]\<rparr>,
        b_fields = Some [(''pressure'', [0x4000000000000000])]\<rparr>)]"

text \<open>The number of cells that a sub-block brings to the cell array of the mesh.\<close>

definition block_count :: "block \<Rightarrow> nat" where
  "block_count b = (case block_cells b of Inl e \<Rightarrow> 0 | Inr g \<Rightarrow> length (cells g))"

text \<open>
  Meshes of two sub-blocks in which only the first has the field \<open>pressure\<close>. In
  \<open>blocks_empty\<close> the first sub-block has both cells of \<open>mesh_a\<close> and the second has a
  connectivity dataset without rows; in \<open>blocks_partial\<close> each sub-block has one of the
  two cells.
\<close>

definition blocks_empty :: "(string \<times> block) list" where
  "blocks_empty =
     [(''block0'',
       \<lparr>b_points = Some square, b_connectivity = Some conn_a,
        b_fields = Some [(''pressure'', [0x3FF0000000000000, 0x4000000000000000])]\<rparr>),
      (''block1'',
       \<lparr>b_points = Some square, b_connectivity = Some \<lparr>cwidth = 3, crows = []\<rparr>,
        b_fields = None\<rparr>)]"

definition blocks_partial :: "(string \<times> block) list" where
  "blocks_partial =
     [(''block0'',
       \<lparr>b_points = Some square,
        b_connectivity = Some \<lparr>cwidth = 3, crows = [[0, 1, 2]]\<rparr>,
        b_fields = Some [(''pressure'', [0x3FF0000000000000])]\<rparr>),
      (''block1'',
       \<lparr>b_points = Some square,
        b_connectivity = Some \<lparr>cwidth = 3, crows = [[1, 3, 2]]\<rparr>,
        b_fields = None\<rparr>)]"

text \<open>
  Meshes for the invariance under a permutation of the cells. \<open>mesh_dup\<close> has the same
  triangle twice, with the pressures \<open>1.0\<close> and \<open>2.0\<close>; \<open>mesh_dup_swapped\<close> is \<open>mesh_dup\<close> with
  its two cells exchanged and the pressures exchanged with them. The one cell of
  \<open>mesh_nan_point\<close> has a vertex with a NaN coordinate.
\<close>

definition mesh_dup :: mesh where
  "mesh_dup = Single square (Some \<lparr>cwidth = 3, crows = [[0, 1, 2], [0, 1, 2]]\<rparr>)
     (Some [(''pressure'', [0x3FF0000000000000, 0x4000000000000000])])"

definition mesh_dup_swapped :: mesh where
  "mesh_dup_swapped = Single square (Some \<lparr>cwidth = 3, crows = [[0, 1, 2], [0, 1, 2]]\<rparr>)
     (Some [(''pressure'', [0x4000000000000000, 0x3FF0000000000000])])"

definition mesh_nan_point :: mesh where
  "mesh_nan_point =
     Single \<lparr>pdim = 2, prows = [[0, 0], [0x3FF0000000000000, 0], [0, 0x7FF8000000000000]]\<rparr>
       (Some \<lparr>cwidth = 3, crows = [[0, 1, 2]]\<rparr>) None"

section \<open>Properties\<close>

subsection \<open>Auxiliary facts\<close>

text \<open>
  Values of the subtraction. \<open>1.0 - (1.0 + 2e-14)\<close> is exact. \<open>1e-14 + 2 ^ (-101)\<close> is less
  than half a unit of the last digit above \<open>1e-14\<close> and rounds to it. \<open>1.0 - 2 ^ (-54)\<close> lies
  halfway between two float64 values and goes to the even one, \<open>1.0\<close>, and so does
  \<open>(1.0 + 2 ^ (-52)) + 2 ^ (-53)\<close>, to \<open>1.0 + 2 ^ (-51)\<close>. The difference of the two smallest
  subnormal values is exact, the difference between the largest value and its opposite
  is infinity, and \<open>0.1 - 0.3\<close> is the float64 \<open>-0.19999999999999998\<close>.
\<close>

lemma f64_sub_values:
  "f64_sub 0x3FF0000000000000 0x3FF000000000005A = 0xBD16800000000000"
  "f64_sub 0x3D06849B86A12B9B 0xB9A0000000000000 = 0x3D06849B86A12B9B"
  "f64_sub 0x3FF0000000000000 0x3C90000000000000 = 0x3FF0000000000000"
  "f64_sub 0x3FF0000000000001 0xBCA0000000000000 = 0x3FF0000000000002"
  "f64_sub 0x0000000000000001 0x0000000000000002 = 0x8000000000000001"
  "f64_sub 0x7FEFFFFFFFFFFFFF 0xFFEFFFFFFFFFFFFF = 0x7FF0000000000000"
  "f64_sub 0x3FB999999999999A 0x3FD3333333333333 = 0xBFC9999999999999"
  by code_simp+

text \<open>The tolerance is \<open>6338253001141147 / 2 ^ 99\<close>, within half a unit of its last digit
  of \<open>1 / 10 ^ 14\<close>.\<close>

lemma tol_value:
  "f64_mant tol = 6338253001141147"
  "f64_scale tol + 99 = 1074"
  "\<bar>f64_mant tol * 10 ^ 14 - 2 ^ 99\<bar> * 2 \<le> 10 ^ 14"
  by code_simp+

lemma compare_meshes_loaded:
  assumes "fs file1 = Some (Some mesh1)" and "fs file2 = Some (Some mesh2)"
  shows "compare_meshes fs file1 file2 =
     ([Opened file1, Opened file2] @ fst (compare_loaded file1 file2 mesh1 mesh2),
      snd (compare_loaded file1 file2 mesh1 mesh2))"
  using assms by (simp add: compare_meshes_def open_mesh_def split: prod.splits)

lemma compare_loaded_shape:
  assumes "construct_cells mesh1 = Inr (Some c1)"
    and "construct_cells mesh2 = Inr (Some c2)"
    and "shape c1 \<noteq> shape c2"
  shows "compare_loaded file1 file2 mesh1 mesh2 =
     ([Print ''shape are not compatibles'',
       Print (shape_str (shape c1) @ '' vs '' @ shape_str (shape c2))],
      Inl (SysExit (Some (differ_msg file1 file2))))"
  using assms by (simp add: compare_loaded_def Let_def)

lemma cells_mesh_a:
  "construct_cells mesh_a = Inr (Some \<lparr>nverts = 3, sdim = 2, cells =
     [[[0, 0], [0x3FF0000000000000, 0], [0, 0x3FF0000000000000]],
      [[0x3FF0000000000000, 0], [0x3FF0000000000000, 0x3FF0000000000000],
       [0, 0x3FF0000000000000]]]\<rparr>)"
  by code_simp

lemma cells_mesh_one:
  "construct_cells mesh_one = Inr (Some \<lparr>nverts = 3, sdim = 2, cells =
     [[[0, 0], [0x3FF0000000000000, 0], [0, 0x3FF0000000000000]]]\<rparr>)"
  by code_simp

lemma take_idx_ok:
  "\<forall>i\<in>set idx. i < length v \<Longrightarrow> take_idx v idx = Inr (map (\<lambda>i. v ! i) idx)"
  by (simp add: take_idx_def list_all_iff)

lemma take_idx_bad:
  "i \<in> set idx \<Longrightarrow> length v \<le> i \<Longrightarrow> take_idx v idx = Inl IndexError"
  by (auto simp add: take_idx_def list_all_iff not_less intro!: bexI [of _ i])

lemma any_exceeds_iff:
  assumes "length a1 = length a2"
  shows "list_ex (\<lambda>d. f64_gt d tol) (map2 abs_diff a1 a2)
     \<longleftrightarrow> (\<exists>i<length a1. f64_gt (abs_diff (a1 ! i) (a2 ! i)) tol)"
proof -
  have "set (map2 abs_diff a1 a2) = {abs_diff (a1 ! i) (a2 ! i) | i. i < length a1}"
    using assms by (auto simp: set_zip image_def)
  then show ?thesis
    by (auto simp: list_ex_iff)
qed

text \<open>The body of the field loop on a field that both files have, with values for
  every cell: it passes in silence, or it ends the process through \<^verbatim>\<open>sys.exit()\<close>.\<close>

lemma check_field_cases:
  assumes "map_of field1 f = Some v1" and "map_of field2 f = Some v2"
    and "\<forall>i\<in>set index1. i < length v1" and "\<forall>i\<in>set index2. i < length v2"
    and "length index1 = length index2"
  shows "(\<forall>i<length index1. \<not> f64_gt (abs_diff (v1 ! (index1 ! i)) (v2 ! (index2 ! i))) tol) \<Longrightarrow>
           check_field file1 file2 cells1 cells2 index1 index2 field1 field2 f = ([], Inr ())"
    and "\<not> (\<forall>i<length index1. \<not> f64_gt (abs_diff (v1 ! (index1 ! i)) (v2 ! (index2 ! i))) tol) \<Longrightarrow>
           snd (check_field file1 file2 cells1 cells2 index1 index2 field1 field2 f)
             = Inl (SysExit None)"
proof -
  have *: "list_ex (\<lambda>d. f64_gt d tol)
        (map2 abs_diff (map (\<lambda>i. v1 ! i) index1) (map (\<lambda>i. v2 ! i) index2))
     \<longleftrightarrow> \<not> (\<forall>i<length index1. \<not> f64_gt (abs_diff (v1 ! (index1 ! i)) (v2 ! (index2 ! i))) tol)"
    using any_exceeds_iff [of "map (\<lambda>i. v1 ! i) index1" "map (\<lambda>i. v2 ! i) index2"] assms(5)
    by auto
  show "(\<forall>i<length index1. \<not> f64_gt (abs_diff (v1 ! (index1 ! i)) (v2 ! (index2 ! i))) tol) \<Longrightarrow>
           check_field file1 file2 cells1 cells2 index1 index2 field1 field2 f = ([], Inr ())"
    using assms(1-4) * by (simp add: check_field_def take_idx_ok Let_def)
  show "\<not> (\<forall>i<length index1. \<not> f64_gt (abs_diff (v1 ! (index1 ! i)) (v2 ! (index2 ! i))) tol) \<Longrightarrow>
           snd (check_field file1 file2 cells1 cells2 index1 index2 field1 field2 f)
             = Inl (SysExit None)"
    using assms(1-4) * by (simp add: check_field_def take_idx_ok Let_def)
qed

text \<open>A difference is not greater than the tolerance when it is at most the tolerance
  or is a NaN.\<close>

lemma not_gt_tol_iff:
  "\<not> f64_gt d tol \<longleftrightarrow> f64_le d tol \<or> f64_isnan d"
proof -
  have "\<not> f64_isnan tol"
    by (simp add: f64_isnan_def tol_def)
  then show ?thesis
    by (auto simp: f64_gt_def f64_le_def)
qed

lemma run_range_all_ok:
  "\<forall>i\<in>set js. snd (compare_index fs f1 f2 i) = Inr () \<Longrightarrow>
     run_range fs f1 f2 js = (concat (map (\<lambda>i. fst (compare_index fs f1 f2 i)) js), Inr ())"
  by (induction js) (auto split: prod.splits sum.splits)

lemma run_range_stops:
  "\<forall>i\<in>set pre. snd (compare_index fs f1 f2 i) = Inr () \<Longrightarrow>
   snd (compare_index fs f1 f2 k) \<noteq> Inr () \<Longrightarrow>
     run_range fs f1 f2 (pre @ k # post)
       = (concat (map (\<lambda>i. fst (compare_index fs f1 f2 i)) (pre @ [k])),
          snd (compare_index fs f1 f2 k))"
  by (induction pre) (auto split: prod.splits sum.splits)

lemma compare_meshes_cong:
  "fs' file1 = fs file1 \<Longrightarrow> fs' file2 = fs file2 \<Longrightarrow>
     compare_meshes fs' file1 file2 = compare_meshes fs file1 file2"
  by (simp add: compare_meshes_def open_mesh_def split: option.splits sum.splits)

lemma check_field_missing:
  "map_of field2 f = None \<Longrightarrow>
     check_field file1 file2 cells1 cells2 index1 index2 field1 field2 f
       = ([Print (f @ '' is not in second file'')], Inl (SysExit (Some (differ_msg file1 file2))))"
  by (simp add: check_field_def)

lemma check_field_cong:
  "map_of field2' f = map_of field2 f \<Longrightarrow>
     check_field file1 file2 cells1 cells2 index1 index2 field1 field2' f
       = check_field file1 file2 cells1 cells2 index1 index2 field1 field2 f"
  by (simp add: check_field_def)

lemma check_fields_cong:
  assumes "\<forall>f\<in>set names. map_of field2' f = map_of field2 f"
  shows "check_fields file1 file2 cells1 cells2 index1 index2 field1 field2' names
       = check_fields file1 file2 cells1 cells2 index1 index2 field1 field2 names"
  using assms
proof (induction names)
  case Nil
  show ?case by simp
next
  case (Cons g rest)
  from Cons.prems have "map_of field2' g = map_of field2 g"
    by simp
  then have g: "check_field file1 file2 cells1 cells2 index1 index2 field1 field2' g
      = check_field file1 file2 cells1 cells2 index1 index2 field1 field2 g"
    by (rule check_field_cong)
  from Cons.prems have "\<forall>f\<in>set rest. map_of field2' f = map_of field2 f"
    by simp
  from Cons.IH [OF this] g show ?case
    by (simp only: check_fields.simps)
qed

lemma check_fields_missing:
  assumes "f \<in> set names" and "map_of field2 f = None"
  shows "snd (check_fields file1 file2 cells1 cells2 index1 index2 field1 field2 names) \<noteq> Inr ()"
  using assms(1)
proof (induction names)
  case Nil
  then show ?case by simp
next
  case (Cons g rest)
  obtain out r where c: "check_field file1 file2 cells1 cells2 index1 index2 field1 field2 g = (out, r)"
    by (cases "check_field file1 file2 cells1 cells2 index1 index2 field1 field2 g")
  show ?case
  proof (cases r)
    case (Inl a)
    with c show ?thesis by simp
  next
    case (Inr u)
    with c check_field_missing [OF assms(2), of file1 file2 cells1 cells2 index1 index2 field1]
    have "g \<noteq> f" by auto
    with Cons.prems have "f \<in> set rest" by simp
    from Cons.IH [OF this] c Inr show ?thesis
      by (auto split: prod.splits)
  qed
qed

lemma check_fields_first_failure:
  "\<forall>g\<in>set pre. check_field file1 file2 cells1 cells2 index1 index2 field1 field2 g = ([], Inr ()) \<Longrightarrow>
     check_fields file1 file2 cells1 cells2 index1 index2 field1 field2 (pre @ rest)
       = check_fields file1 file2 cells1 cells2 index1 index2 field1 field2 rest"
  by (induction pre) (simp_all split: prod.splits)

lemma compare_loaded_fields:
  assumes "construct_cells mesh1 = Inr (Some c1)"
    and "construct_cells mesh2 = Inr (Some c2)"
    and "cells_agree c1 c2"
  shows "compare_loaded file1 file2 mesh1 mesh2 =
     (case check_fields file1 file2 (cells c1) (cells c2)
             (sort_index (cells c1)) (sort_index (cells c2))
             (construct_fields mesh1) (construct_fields mesh2)
             (map fst (construct_fields mesh1)) of
        (out, Inl a) \<Rightarrow> (out, Inl a)
      | (out, Inr u) \<Rightarrow> (out @ [Print (same_msg file1 file2)], Inr ()))"
  using assms by (simp add: compare_loaded_def cells_agree_def Let_def)

lemma compare_loaded_ok_fields:
  assumes ok: "snd (compare_loaded file1 file2 mesh1 mesh2) = Inr ()"
  shows "\<exists>c1 c2. construct_cells mesh1 = Inr (Some c1) \<and> construct_cells mesh2 = Inr (Some c2)
     \<and> cells_agree c1 c2
     \<and> snd (check_fields file1 file2 (cells c1) (cells c2)
             (sort_index (cells c1)) (sort_index (cells c2))
             (construct_fields mesh1) (construct_fields mesh2)
             (map fst (construct_fields mesh1))) = Inr ()"
proof -
  obtain o1 where o1: "construct_cells mesh1 = Inr o1"
    using ok by (cases "construct_cells mesh1") (simp_all add: compare_loaded_def)
  obtain o2 where o2: "construct_cells mesh2 = Inr o2"
    using ok o1 by (cases "construct_cells mesh2") (simp_all add: compare_loaded_def)
  obtain c1 where c1: "o1 = Some c1"
    using ok o1 o2 by (cases o1) (simp_all add: compare_loaded_def)
  obtain c2 where c2: "o2 = Some c2"
    using ok o1 o2 c1 by (cases o2) (simp_all add: compare_loaded_def)
  have sh: "shape c1 = shape c2"
    using ok o1 o2 c1 c2 by (cases "shape c1 = shape c2") (simp_all add: compare_loaded_def Let_def)
  have ne: "\<not> any_ne (reorder (cells c1) (sort_index (cells c1)))
                (reorder (cells c2) (sort_index (cells c2)))"
    using ok o1 o2 c1 c2 sh
    by (cases "any_ne (reorder (cells c1) (sort_index (cells c1)))
                (reorder (cells c2) (sort_index (cells c2)))")
       (simp_all add: compare_loaded_def Let_def)
  from sh ne have agree: "cells_agree c1 c2"
    by (simp add: cells_agree_def)
  from o1 c1 have m1: "construct_cells mesh1 = Inr (Some c1)" by simp
  from o2 c2 have m2: "construct_cells mesh2 = Inr (Some c2)" by simp
  obtain out r where cf: "check_fields file1 file2 (cells c1) (cells c2)
             (sort_index (cells c1)) (sort_index (cells c2))
             (construct_fields mesh1) (construct_fields mesh2)
             (map fst (construct_fields mesh1)) = (out, r)"
    by (cases "check_fields file1 file2 (cells c1) (cells c2)
             (sort_index (cells c1)) (sort_index (cells c2))
             (construct_fields mesh1) (construct_fields mesh2)
             (map fst (construct_fields mesh1))")
  from ok have "r = Inr ()"
    unfolding compare_loaded_fields [OF m1 m2 agree] cf
    by (cases r) simp_all
  with cf m1 m2 agree show ?thesis
    by auto
qed

text \<open>The loops of \<^verbatim>\<open>construct_cells\<close> and \<^verbatim>\<open>construct_fields\<close> over the sub-blocks.\<close>

lemma cells_loop_Some:
  "map (\<lambda>kb. block_cells (snd kb)) bs = map Inr gs \<Longrightarrow>
   \<forall>g\<in>set gs. nverts g = nverts out \<and> sdim g = sdim out \<Longrightarrow>
     cells_loop (Some out) bs = Inr (Some (out\<lparr>cells := cells out @ concat (map cells gs)\<rparr>))"
proof (induction bs arbitrary: out gs)
  case Nil
  then show ?case by simp
next
  case (Cons kb bs)
  obtain k b where kb: "kb = (k, b)" by (cases kb)
  from Cons.prems(1) obtain g gs' where gs: "gs = g # gs'"
    and g: "block_cells b = Inr g"
    and rest: "map (\<lambda>kb. block_cells (snd kb)) bs = map Inr gs'"
    by (cases gs) (auto simp: kb)
  from Cons.prems(2) gs have dims: "nverts g = nverts out" "sdim g = sdim out"
    and dims': "\<forall>h\<in>set gs'. nverts h = nverts (out\<lparr>cells := cells out @ cells g\<rparr>)
                  \<and> sdim h = sdim (out\<lparr>cells := cells out @ cells g\<rparr>)"
    by simp_all
  from Cons.IH [OF rest dims'] g dims show ?case
    by (simp add: kb gs concatenate_def)
qed

lemma construct_cells_Multi:
  assumes "bs \<noteq> []"
    and "map (\<lambda>kb. block_cells (snd kb)) bs = map Inr gs"
    and "\<forall>g\<in>set gs. nverts g = v \<and> sdim g = d"
  shows "construct_cells (Multi bs) = Inr (Some \<lparr>nverts = v, sdim = d, cells = concat (map cells gs)\<rparr>)"
proof -
  from assms(1) obtain k b rest where bs: "bs = (k, b) # rest"
    by (cases bs) auto
  from assms(2) obtain g gs' where gs: "gs = g # gs'"
    and g: "block_cells b = Inr g"
    and rest: "map (\<lambda>kb. block_cells (snd kb)) rest = map Inr gs'"
    by (cases gs) (auto simp: bs)
  from assms(3) gs have dg: "nverts g = v" "sdim g = d"
    and "\<forall>h\<in>set gs'. nverts h = nverts g \<and> sdim h = sdim g"
    by simp_all
  from cells_loop_Some [OF rest this(3)] g dg show ?thesis
    by (simp add: bs gs)
qed

lemma set_first_seen: "set (first_seen xs) = set xs"
  by (induction xs) auto

lemma first_seen_distinct: "distinct xs \<Longrightarrow> first_seen xs = xs"
  by (induction xs) (auto simp: set_first_seen intro: filter_True)

lemma first_seen_append:
  "first_seen (xs @ ys) = first_seen xs @ filter (\<lambda>y. y \<notin> set xs) (first_seen ys)"
  by (induction xs) (auto intro: filter_cong)

lemma values_of_fresh: "f \<notin> set (map fst fm) \<Longrightarrow> values_of fm f = []"
  by (simp add: values_of_def map_of_eq_None_iff [THEN iffD2])

lemma foldl_add_field:
  "distinct (map fst fm) \<Longrightarrow>
     foldl add_field out fm =
       map (\<lambda>(g, w). (g, w @ values_of fm g)) out
         @ filter (\<lambda>fv. fst fv \<notin> set (map fst out)) fm"
proof (induction fm arbitrary: out)
  case Nil
  show ?case by (simp add: values_of_def split_def)
next
  case (Cons fv fm)
  obtain f v where fv: "fv = (f, v)" by (cases fv)
  from Cons.prems have fresh: "f \<notin> set (map fst fm)" and d: "distinct (map fst fm)"
    by (simp_all add: fv)
  have vf: "values_of fm f = []"
    using fresh by (rule values_of_fresh)
  show ?case
  proof (cases "f \<in> set (map fst out)")
    case False
    have a: "add_field out (f, v) = out @ [(f, v)]"
      using False by (simp add: add_field_def)
    have m: "map (\<lambda>(g, w). (g, w @ values_of fm g)) out
        = map (\<lambda>(g, w). (g, w @ values_of ((f, v) # fm) g)) out"
      using False by (intro map_cong refl) (force simp: values_of_def)
    have fl: "filter (\<lambda>fv. fst fv \<notin> set (map fst (out @ [(f, v)]))) fm
        = filter (\<lambda>fv. fst fv \<notin> set (map fst out)) fm"
      using fresh by (intro filter_cong refl) auto
    have "foldl add_field out (fv # fm) = foldl add_field (out @ [(f, v)]) fm"
      by (simp add: fv a)
    also have "\<dots> = map (\<lambda>(g, w). (g, w @ values_of fm g)) (out @ [(f, v)])
         @ filter (\<lambda>fv. fst fv \<notin> set (map fst (out @ [(f, v)]))) fm"
      by (rule Cons.IH [OF d])
    also have "\<dots> = map (\<lambda>(g, w). (g, w @ values_of ((f, v) # fm) g)) out
         @ (f, v) # filter (\<lambda>fv. fst fv \<notin> set (map fst out)) fm"
      unfolding fl by (simp add: vf m)
    also have "\<dots> = map (\<lambda>(g, w). (g, w @ values_of (fv # fm) g)) out
         @ filter (\<lambda>fv. fst fv \<notin> set (map fst out)) (fv # fm)"
      using False by (simp add: fv)
    finally show ?thesis .
  next
    case True
    let ?out' = "map (\<lambda>(g, w). if g = f then (g, w @ v) else (g, w)) out"
    have a: "add_field out (f, v) = ?out'"
      using True by (auto simp add: add_field_def)
    have k: "map fst ?out' = map fst out"
      by (induction out) auto
    have m: "map (\<lambda>(g, w). (g, w @ values_of fm g)) ?out'
        = map (\<lambda>(g, w). (g, w @ values_of ((f, v) # fm) g)) out"
      using vf by (induction out) (auto simp: values_of_def)
    have "foldl add_field out (fv # fm) = foldl add_field ?out' fm"
      by (simp add: fv a)
    also have "\<dots> = map (\<lambda>(g, w). (g, w @ values_of fm g)) ?out'
         @ filter (\<lambda>fv. fst fv \<notin> set (map fst ?out')) fm"
      by (rule Cons.IH [OF d])
    also have "\<dots> = map (\<lambda>(g, w). (g, w @ values_of ((f, v) # fm) g)) out
         @ filter (\<lambda>fv. fst fv \<notin> set (map fst out)) fm"
      unfolding k m ..
    also have "\<dots> = map (\<lambda>(g, w). (g, w @ values_of (fv # fm) g)) out
         @ filter (\<lambda>fv. fst fv \<notin> set (map fst out)) (fv # fm)"
      using True by (simp add: fv)
    finally show ?thesis .
  qed
qed

lemma block_values_fresh: "f \<notin> set (block_names b) \<Longrightarrow> block_values f b = []"
  by (auto simp: block_names_def block_values_def values_of_fresh split: option.splits)

lemma concat_values_fresh:
  "f \<notin> set (concat (map (\<lambda>kb. block_names (snd kb)) bs)) \<Longrightarrow>
     concat (map (\<lambda>kb. block_values f (snd kb)) bs) = []"
  by (induction bs) (simp_all add: block_values_fresh)

lemma values_of_distinct:
  "distinct (map fst fm) \<Longrightarrow> fv \<in> set fm \<Longrightarrow> values_of fm (fst fv) = snd fv"
  by (cases fv) (simp add: values_of_def)

lemma add_block_concat_fields:
  assumes "distinct (block_names (snd kb))"
  shows "add_block (concat_fields bs) kb = concat_fields (bs @ [kb])"
proof (cases "b_fields (snd kb)")
  case None
  then show ?thesis
    by (simp add: add_block_def concat_fields_def block_names_def block_values_def)
next
  case (Some fm)
  let ?N = "concat (map (\<lambda>kb. block_names (snd kb)) bs)"
  let ?C = "\<lambda>f. concat (map (\<lambda>kb. block_values f (snd kb)) bs)"
  from assms Some have d: "distinct (map fst fm)"
    by (simp add: block_names_def)
  have names: "block_names (snd kb) = map fst fm"
    and vals: "\<And>f. block_values f (snd kb) = values_of fm f"
    using Some by (simp_all add: block_names_def block_values_def)
  have keys: "set (map fst (concat_fields bs)) = set ?N"
    by (simp add: concat_fields_def set_first_seen comp_def del: set_concat)
  have new: "map (\<lambda>f. (f, ?C f @ values_of fm f)) (filter (\<lambda>f. f \<notin> set ?N) (map fst fm))
      = filter (\<lambda>fv. fst fv \<notin> set ?N) fm"
  proof -
    have "map (\<lambda>f. (f, ?C f @ values_of fm f)) (filter (\<lambda>f. f \<notin> set ?N) (map fst fm))
        = map (\<lambda>fv. (fst fv, ?C (fst fv) @ values_of fm (fst fv)))
            (filter (\<lambda>fv. fst fv \<notin> set ?N) fm)"
      by (simp add: filter_map comp_def del: set_concat)
    also have "\<dots> = map (\<lambda>fv. fv) (filter (\<lambda>fv. fst fv \<notin> set ?N) fm)"
    proof (rule map_cong [OF refl])
      fix fv
      assume "fv \<in> set (filter (\<lambda>fv. fst fv \<notin> set ?N) fm)"
      then have m: "fv \<in> set fm" and fresh: "fst fv \<notin> set ?N"
        by simp_all
      from fresh have "?C (fst fv) = []"
        by (rule concat_values_fresh)
      moreover from d m have "values_of fm (fst fv) = snd fv"
        by (rule values_of_distinct)
      ultimately show "(fst fv, ?C (fst fv) @ values_of fm (fst fv)) = fv"
        by (simp only: append_Nil prod.collapse)
    qed
    finally show ?thesis
      by simp
  qed
  have "add_block (concat_fields bs) kb = foldl add_field (concat_fields bs) fm"
    using Some by (simp add: add_block_def)
  also have "\<dots> = map (\<lambda>(g, w). (g, w @ values_of fm g)) (concat_fields bs)
         @ filter (\<lambda>fv. fst fv \<notin> set (map fst (concat_fields bs))) fm"
    by (rule foldl_add_field [OF d])
  also have "\<dots> = map (\<lambda>f. (f, ?C f @ values_of fm f)) (first_seen ?N)
         @ filter (\<lambda>fv. fst fv \<notin> set ?N) fm"
    unfolding keys by (simp add: concat_fields_def comp_def del: set_concat)
  also have "\<dots> = map (\<lambda>f. (f, ?C f @ values_of fm f))
         (first_seen ?N @ filter (\<lambda>f. f \<notin> set ?N) (map fst fm))"
    unfolding map_append new ..
  also have "\<dots> = concat_fields (bs @ [kb])"
    by (simp add: concat_fields_def names vals first_seen_append first_seen_distinct [OF d]
          del: set_concat)
  finally show ?thesis .
qed

lemma construct_fields_Multi:
  "\<forall>kb\<in>set bs. distinct (block_names (snd kb)) \<Longrightarrow>
     construct_fields (Multi bs) = concat_fields bs"
proof (induction bs rule: rev_induct)
  case Nil
  show ?case by (simp add: concat_fields_def)
next
  case (snoc kb bs)
  from snoc.prems have d: "distinct (block_names (snd kb))"
    and rest: "\<forall>kb\<in>set bs. distinct (block_names (snd kb))"
    by simp_all
  from snoc.IH [OF rest] have "foldl add_block [] bs = concat_fields bs"
    by simp
  then have "construct_fields (Multi (bs @ [kb])) = add_block (concat_fields bs) kb"
    by simp
  also have "\<dots> = concat_fields (bs @ [kb])"
    by (rule add_block_concat_fields [OF d])
  finally show ?case .
qed

lemma compare_loaded_cong:
  assumes "construct_cells m1' = construct_cells m1" and "construct_fields m1' = construct_fields m1"
    and "construct_cells m2' = construct_cells m2" and "construct_fields m2' = construct_fields m2"
  shows "compare_loaded file1 file2 m1' m2' = compare_loaded file1 file2 m1 m2"
  unfolding compare_loaded_def assms ..

text \<open>A field that is shorter than the cell array.\<close>

lemma set_sort_index: "set (sort_index cs) = {0..<length cs}"
  by (simp add: sort_index_def argsort_def)

lemma length_sort_index: "length (sort_index cs) = length cs"
  by (simp add: sort_index_def argsort_def)

lemma map_of_tabulate:
  "map_of (map (\<lambda>f. (f, h f)) xs) f = (if f \<in> set xs then Some (h f) else None)"
  by (induction xs) auto

lemma map_of_concat_fields:
  "f \<in> set (concat (map (\<lambda>kb. block_names (snd kb)) bs)) \<Longrightarrow>
     map_of (concat_fields bs) f = Some (concat (map (\<lambda>kb. block_values f (snd kb)) bs))"
  by (simp add: concat_fields_def map_of_tabulate set_first_seen del: set_concat)

lemma sum_list_strict:
  fixes a b :: "'a \<Rightarrow> nat"
  assumes "\<forall>x\<in>set xs. a x \<le> b x" and "\<exists>x\<in>set xs. a x < b x"
  shows "sum_list (map a xs) < sum_list (map b xs)"
  using assms
proof (induction xs)
  case Nil
  then show ?case by simp
next
  case (Cons x xs)
  from Cons.prems(1) have le: "a x \<le> b x" and rest: "\<forall>y\<in>set xs. a y \<le> b y"
    by simp_all
  from rest have les: "sum_list (map a xs) \<le> sum_list (map b xs)"
    by (intro sum_list_mono) simp
  show ?case
  proof (cases "a x < b x")
    case True
    with les show ?thesis by simp
  next
    case False
    with Cons.prems(2) have "\<exists>y\<in>set xs. a y < b y"
      by auto
    from Cons.IH [OF rest this] le show ?thesis
      by simp
  qed
qed

lemma total_cells:
  "map (\<lambda>kb. block_cells (snd kb)) bs = map Inr gs \<Longrightarrow>
     length (concat (map cells gs)) = sum_list (map (\<lambda>kb. block_count (snd kb)) bs)"
proof (induction bs arbitrary: gs)
  case Nil
  then show ?case by simp
next
  case (Cons kb bs)
  from Cons.prems obtain g gs' where gs: "gs = g # gs'"
    and g: "block_cells (snd kb) = Inr g"
    and rest: "map (\<lambda>kb. block_cells (snd kb)) bs = map Inr gs'"
    by (cases gs) auto
  from Cons.IH [OF rest] g show ?case
    by (simp add: gs block_count_def)
qed

lemma partial_field_short:
  assumes sizes: "\<forall>kb\<in>set bs. f \<in> set (block_names (snd kb)) \<longrightarrow>
        length (block_values f (snd kb)) = block_count (snd kb)"
    and lacking: "\<exists>kb\<in>set bs. f \<notin> set (block_names (snd kb)) \<and> 0 < block_count (snd kb)"
  shows "length (concat (map (\<lambda>kb. block_values f (snd kb)) bs))
     < sum_list (map (\<lambda>kb. block_count (snd kb)) bs)"
proof -
  have le: "\<forall>kb\<in>set bs. length (block_values f (snd kb)) \<le> block_count (snd kb)"
  proof
    fix kb
    assume kb: "kb \<in> set bs"
    show "length (block_values f (snd kb)) \<le> block_count (snd kb)"
    proof (cases "f \<in> set (block_names (snd kb))")
      case True
      with sizes kb show ?thesis by simp
    next
      case False
      then show ?thesis by (simp add: block_values_fresh)
    qed
  qed
  from lacking obtain kb where "kb \<in> set bs" and "f \<notin> set (block_names (snd kb))"
    and "0 < block_count (snd kb)"
    by blast
  then have lt: "\<exists>kb\<in>set bs. length (block_values f (snd kb)) < block_count (snd kb)"
    by (intro bexI [of _ kb]) (simp_all add: block_values_fresh)
  have "length (concat (map (\<lambda>kb. block_values f (snd kb)) bs))
      = sum_list (map (\<lambda>kb. length (block_values f (snd kb))) bs)"
    by (simp add: length_concat comp_def)
  also have "\<dots> < sum_list (map (\<lambda>kb. block_count (snd kb)) bs)"
    using le lt by (rule sum_list_strict)
  finally show ?thesis .
qed

lemma check_field_short:
  assumes "map_of field2 f = Some v2" and "map_of field1 f = Some v1"
    and "length v1 < length cells1"
  shows "check_field file1 file2 cells1 cells2 (sort_index cells1) index2 field1 field2 f
     = ([], Inl (Uncaught IndexError))"
proof -
  from assms(3) have "length v1 \<in> set (sort_index cells1)"
    by (simp add: set_sort_index)
  then have "take_idx v1 (sort_index cells1) = Inl IndexError"
    by (rule take_idx_bad) simp
  with assms(1,2) show ?thesis
    by (simp add: check_field_def)
qed

lemma compare_loaded_short_field:
  assumes c1: "construct_cells mesh1 = Inr (Some c1)"
    and c2: "construct_cells mesh2 = Inr (Some c2)"
    and agree: "cells_agree c1 c2"
    and names: "map fst (construct_fields mesh1) = pre @ f # post"
    and pre: "\<forall>g\<in>set pre.
        check_field file1 file2 (cells c1) (cells c2)
          (sort_index (cells c1)) (sort_index (cells c2))
          (construct_fields mesh1) (construct_fields mesh2) g = ([], Inr ())"
    and f2: "map_of (construct_fields mesh2) f = Some v2"
    and f1: "map_of (construct_fields mesh1) f = Some v1"
    and short: "length v1 < length (cells c1)"
  shows "compare_loaded file1 file2 mesh1 mesh2 = ([], Inl (Uncaught IndexError))"
proof -
  have "check_fields file1 file2 (cells c1) (cells c2)
          (sort_index (cells c1)) (sort_index (cells c2))
          (construct_fields mesh1) (construct_fields mesh2) (pre @ f # post)
      = check_fields file1 file2 (cells c1) (cells c2)
          (sort_index (cells c1)) (sort_index (cells c2))
          (construct_fields mesh1) (construct_fields mesh2) (f # post)"
    using pre by (rule check_fields_first_failure)
  also have "\<dots> = ([], Inl (Uncaught IndexError))"
    by (simp add: check_field_short [OF f2 f1 short])
  finally show ?thesis
    by (simp add: compare_loaded_fields [OF c1 c2 agree] names)
qed

lemma check_field_short_second:
  assumes "map_of field2 f = Some v2" and "map_of field1 f = Some v1"
    and "length cells1 \<le> length v1" and "length v2 < length cells2"
  shows "check_field file1 file2 cells1 cells2 (sort_index cells1) (sort_index cells2)
       field1 field2 f
     = ([], Inl (Uncaught IndexError))"
proof -
  from assms(3) have "\<forall>i\<in>set (sort_index cells1). i < length v1"
    by (auto simp: set_sort_index)
  then have ok: "take_idx v1 (sort_index cells1) = Inr (map (\<lambda>i. v1 ! i) (sort_index cells1))"
    by (rule take_idx_ok)
  from assms(4) have "length v2 \<in> set (sort_index cells2)"
    by (simp add: set_sort_index)
  then have "take_idx v2 (sort_index cells2) = Inl IndexError"
    by (rule take_idx_bad) simp
  with assms(1,2) ok show ?thesis
    by (simp add: check_field_def)
qed

lemma compare_loaded_short_second:
  assumes c1: "construct_cells mesh1 = Inr (Some c1)"
    and c2: "construct_cells mesh2 = Inr (Some c2)"
    and agree: "cells_agree c1 c2"
    and names: "map fst (construct_fields mesh1) = pre @ f # post"
    and pre: "\<forall>g\<in>set pre.
        check_field file1 file2 (cells c1) (cells c2)
          (sort_index (cells c1)) (sort_index (cells c2))
          (construct_fields mesh1) (construct_fields mesh2) g = ([], Inr ())"
    and f2: "map_of (construct_fields mesh2) f = Some v2"
    and f1: "map_of (construct_fields mesh1) f = Some v1"
    and long: "length (cells c1) \<le> length v1"
    and short: "length v2 < length (cells c2)"
  shows "compare_loaded file1 file2 mesh1 mesh2 = ([], Inl (Uncaught IndexError))"
proof -
  have "check_fields file1 file2 (cells c1) (cells c2)
          (sort_index (cells c1)) (sort_index (cells c2))
          (construct_fields mesh1) (construct_fields mesh2) (pre @ f # post)
      = check_fields file1 file2 (cells c1) (cells c2)
          (sort_index (cells c1)) (sort_index (cells c2))
          (construct_fields mesh1) (construct_fields mesh2) (f # post)"
    using pre by (rule check_fields_first_failure)
  also have "\<dots> = ([], Inl (Uncaught IndexError))"
    by (simp add: check_field_short_second [OF f2 f1 long short])
  finally show ?thesis
    by (simp add: compare_loaded_fields [OF c1 c2 agree] names)
qed

text \<open>A mesh and the same mesh with its cells permuted.\<close>

lemma abs_diff_same: "\<not> f64_gt (abs_diff x x) tol"
proof -
  have nan: "f64_isnan (f64_abs 0x7FF8000000000000)"
    by (simp add: f64_isnan_def f64_abs_def)
  have zero: "\<not> f64_gt (f64_abs 0) tol"
    by (simp add: f64_gt_def f64_key_def f64_abs_def f64_sign_def tol_def)
  have "f64_sub x x = 0x7FF8000000000000 \<or> f64_sub x x = 0"
    by (auto simp: f64_sub_def Let_def)
  then show ?thesis
    using nan zero by (auto simp: abs_diff_def f64_gt_def)
qed

lemma any_ne_same:
  assumes "\<forall>c\<in>set xs. \<forall>v\<in>set c. \<forall>a\<in>set v. \<not> f64_isnan a"
  shows "\<not> any_ne xs xs"
  using assms by (auto simp: any_ne_def list_ex_iff zip_same f64_ne_def)

lemma check_fields_all_pass:
  assumes "\<forall>g\<in>set names.
      check_field file1 file2 cells1 cells2 index1 index2 field1 field2 g = ([], Inr ())"
  shows "check_fields file1 file2 cells1 cells2 index1 index2 field1 field2 names = ([], Inr ())"
  using check_fields_first_failure [OF assms, of "[]"] by simp

text \<open>When the keys are distinct, there is one index array that sorts them: the order
  in which a sort leaves equal keys plays no part.\<close>

lemma argsort_unique:
  assumes "distinct ks" and "mset idx = mset [0..<length ks]"
    and "sorted (map (\<lambda>i. ks ! i) idx)"
  shows "argsort ks = idx"
  unfolding argsort_def
proof (rule sort_key_inj_key_eq)
  show "mset [0..<length ks] = mset idx"
    using assms(2) by simp
  show "inj_on (\<lambda>i. ks ! i) (set [0..<length ks])"
    using assms(1) by (intro inj_on_nth) simp_all
  show "sorted (map (\<lambda>i. ks ! i) idx)"
    by (rule assms(3))
qed

lemma argsort_permuted:
  assumes perm: "mset p = mset [0..<length ks]" and d: "distinct ks"
  shows "map (\<lambda>i. p ! i) (argsort (map (\<lambda>i. ks ! i) p)) = argsort ks"
proof -
  let ?n = "length ks"
  let ?ks2 = "map (\<lambda>i. ks ! i) p"
  let ?idx2 = "argsort ?ks2"
  from perm have len: "length p = ?n"
    by (metis length_upt minus_nat.diff_0 size_mset)
  have set2: "set ?idx2 = {0..<?n}"
    by (simp add: argsort_def len)
  have m2: "mset ?idx2 = mset [0..<?n]"
    by (simp add: argsort_def len)
  have "mset (map (\<lambda>i. p ! i) ?idx2) = image_mset (\<lambda>i. p ! i) (mset [0..<?n])"
    by (simp only: mset_map m2)
  also have "\<dots> = mset (map (\<lambda>i. p ! i) [0..<length p])"
    by (simp only: mset_map len)
  also have "\<dots> = mset p"
    by (simp only: map_nth)
  finally have m: "mset (map (\<lambda>i. p ! i) ?idx2) = mset [0..<?n]"
    using perm by simp
  have "map (\<lambda>i. ks ! i) (map (\<lambda>i. p ! i) ?idx2) = map (\<lambda>i. ?ks2 ! i) ?idx2"
    using set2 by (simp add: len)
  also have "sorted \<dots>"
    unfolding argsort_def by (rule sorted_sort_key)
  finally have s: "sorted (map (\<lambda>i. ks ! i) (map (\<lambda>i. p ! i) ?idx2))" .
  from argsort_unique [OF d m s] show ?thesis
    by simp
qed

lemma sort_index_permuted:
  assumes perm: "mset p = mset [0..<length cs]" and d: "distinct (map tobytes cs)"
  shows "map (\<lambda>i. p ! i) (sort_index (map (\<lambda>i. cs ! i) p)) = sort_index cs"
proof -
  from perm have len: "length p = length cs"
    by (metis length_upt minus_nat.diff_0 size_mset)
  from perm have "set p = set [0..<length cs]"
    by (rule mset_eq_setD)
  then have e: "map tobytes (map (\<lambda>i. cs ! i) p) = map (\<lambda>i. map tobytes cs ! i) p"
    by auto
  have "sort_index (map (\<lambda>i. cs ! i) p) = argsort (map (\<lambda>i. map tobytes cs ! i) p)"
    unfolding sort_index_def e ..
  moreover have "map (\<lambda>i. p ! i) (argsort (map (\<lambda>i. map tobytes cs ! i) p))
      = argsort (map tobytes cs)"
    by (rule argsort_permuted) (simp_all add: perm d)
  ultimately show ?thesis
    by (simp only: sort_index_def)
qed

lemma permuted_run:
  assumes c1: "construct_cells mesh1 = Inr (Some c1)"
    and c2: "construct_cells mesh2 = Inr (Some c2)"
    and perm: "mset p = mset [0..<length (cells c1)]"
    and cells2: "c2 = c1\<lparr>cells := map (\<lambda>i. cells c1 ! i) p\<rparr>"
    and fields2: "construct_fields mesh2
        = map (\<lambda>(f, v). (f, map (\<lambda>i. v ! i) p)) (construct_fields mesh1)"
    and sizes: "\<forall>fv\<in>set (construct_fields mesh1). length (snd fv) = length (cells c1)"
    and d: "distinct (map tobytes (cells c1))"
    and nonan: "\<forall>c\<in>set (cells c1). \<forall>v\<in>set c. \<forall>a\<in>set v. \<not> f64_isnan a"
  shows "compare_loaded file1 file2 mesh1 mesh2 = ([Print (same_msg file1 file2)], Inr ())"
proof -
  let ?cs = "cells c1"
  let ?n = "length ?cs"
  let ?i1 = "sort_index ?cs"
  let ?i2 = "sort_index (cells c2)"
  from perm have len: "length p = ?n"
    by (metis length_upt minus_nat.diff_0 size_mset)
  have cs2: "cells c2 = map (\<lambda>i. ?cs ! i) p"
    by (simp add: cells2)
  have key: "map (\<lambda>i. p ! i) ?i2 = ?i1"
    unfolding cs2 using perm d by (rule sort_index_permuted)
  have s1: "set ?i1 = {0..<?n}" and s2: "set ?i2 = {0..<?n}"
    by (simp_all add: set_sort_index cs2 len)
  have l1: "length ?i1 = ?n" and l2: "length ?i2 = ?n"
    by (simp_all add: length_sort_index cs2 len)
  have pick: "p ! (?i2 ! i) = ?i1 ! i" if "i < ?n" for i
  proof -
    from that l2 have "map (\<lambda>i. p ! i) ?i2 ! i = p ! (?i2 ! i)"
      by simp
    then show ?thesis
      by (simp only: key)
  qed
  have "reorder (cells c2) ?i2 = map (\<lambda>i. ?cs ! (p ! i)) ?i2"
    unfolding reorder_def using s2 by (intro map_cong refl) (simp add: cs2 len)
  also have "\<dots> = map (\<lambda>i. ?cs ! i) (map (\<lambda>i. p ! i) ?i2)"
    by (simp add: comp_def)
  also have "\<dots> = reorder ?cs ?i1"
    by (simp only: key reorder_def)
  finally have same: "reorder (cells c2) ?i2 = reorder ?cs ?i1" .
  have "set (reorder ?cs ?i1) \<subseteq> set ?cs"
    using s1 by (auto simp: reorder_def)
  with nonan have "\<forall>c\<in>set (reorder ?cs ?i1). \<forall>v\<in>set c. \<forall>a\<in>set v. \<not> f64_isnan a"
    by blast
  then have "\<not> any_ne (reorder ?cs ?i1) (reorder ?cs ?i1)"
    by (rule any_ne_same)
  then have ne: "\<not> any_ne (reorder ?cs ?i1) (reorder (cells c2) ?i2)"
    unfolding same .
  have sh: "shape c1 = shape c2"
    by (simp add: shape_def cells2 len)
  from sh ne have agree: "cells_agree c1 c2"
    unfolding cells_agree_def by (rule conjI)
  have pass: "check_field file1 file2 ?cs (cells c2) ?i1 ?i2
      (construct_fields mesh1) (construct_fields mesh2) g = ([], Inr ())"
    if g: "g \<in> set (map fst (construct_fields mesh1))" for g
  proof -
    from g obtain v1 where f1: "map_of (construct_fields mesh1) g = Some v1"
      by (cases "map_of (construct_fields mesh1) g") (auto simp: map_of_eq_None_iff)
    then have "(g, v1) \<in> set (construct_fields mesh1)"
      by (rule map_of_SomeD)
    with sizes have lv: "length v1 = ?n"
      by auto
    have f2: "map_of (construct_fields mesh2) g = Some (map (\<lambda>i. v1 ! i) p)"
      by (simp add: fields2 map_of_map f1)
    have r1: "\<forall>i\<in>set ?i1. i < length v1"
      by (simp add: s1 lv)
    have r2: "\<forall>i\<in>set ?i2. i < length (map (\<lambda>i. v1 ! i) p)"
      by (simp add: s2 len)
    have ll: "length ?i1 = length ?i2"
      by (simp add: l1 l2)
    have "\<forall>i<length ?i1.
        \<not> f64_gt (abs_diff (v1 ! (?i1 ! i)) (map (\<lambda>i. v1 ! i) p ! (?i2 ! i))) tol"
    proof (intro allI impI)
      fix i
      assume "i < length ?i1"
      then have i: "i < ?n"
        by (simp add: l1)
      then have "?i2 ! i \<in> set ?i2"
        by (simp add: l2)
      then have "?i2 ! i < length p"
        by (simp add: s2 len)
      then have "map (\<lambda>i. v1 ! i) p ! (?i2 ! i) = v1 ! (p ! (?i2 ! i))"
        by simp
      also have "\<dots> = v1 ! (?i1 ! i)"
        by (simp only: pick [OF i])
      finally show "\<not> f64_gt (abs_diff (v1 ! (?i1 ! i)) (map (\<lambda>i. v1 ! i) p ! (?i2 ! i))) tol"
        by (simp only: abs_diff_same not_False_eq_True)
    qed
    then show ?thesis
      by (rule check_field_cases(1) [OF f1 f2 r1 r2 ll])
  qed
  then have "check_fields file1 file2 ?cs (cells c2) ?i1 ?i2
      (construct_fields mesh1) (construct_fields mesh2) (map fst (construct_fields mesh1))
        = ([], Inr ())"
    by (intro check_fields_all_pass ballI)
  then show ?thesis
    by (simp add: compare_loaded_fields [OF c1 c2 agree])
qed

subsection \<open>Shape check\<close>

text \<open>
  Claim C5. When the two cell arrays have been built and their shapes differ in the
  number of cells, in the number of vertices of a cell or in the dimension of space,
  the comparison prints that the shapes are not compatible, prints the two shapes and
  ends the process with the message that the files are different. Nothing else is
  printed and nothing else decides the outcome: the coordinates are not compared and
  the fields are not read.
\<close>

theorem shape_mismatch_ends_comparison:
  assumes "fs file1 = Some (Some mesh1)" and "fs file2 = Some (Some mesh2)"
    and "construct_cells mesh1 = Inr (Some c1)"
    and "construct_cells mesh2 = Inr (Some c2)"
    and "length (cells c1) \<noteq> length (cells c2) \<or> nverts c1 \<noteq> nverts c2 \<or> sdim c1 \<noteq> sdim c2"
  shows "compare_meshes fs file1 file2 =
     ([Opened file1, Opened file2,
       Print ''shape are not compatibles'',
       Print (shape_str (shape c1) @ '' vs '' @ shape_str (shape c2))],
      Inl (SysExit (Some (differ_msg file1 file2))))"
proof -
  from assms(5) have "shape c1 \<noteq> shape c2"
    by (auto simp: shape_def)
  with assms(3,4) show ?thesis
    by (simp add: compare_meshes_loaded [OF assms(1,2)] compare_loaded_shape)
qed

theorem shape_mismatch_ends_comparison_witness:
  "compare_meshes example_files ''a.h5'' ''one.h5'' =
     ([Opened ''a.h5'', Opened ''one.h5'',
       Print ''shape are not compatibles'',
       Print ''(2, 3, 2) vs (1, 3, 2)''],
      Inl (SysExit (Some ''files a.h5 and one.h5 are different'')))"
proof -
  have f1: "example_files ''a.h5'' = Some (Some mesh_a)"
    and f2: "example_files ''one.h5'' = Some (Some mesh_one)"
    by (simp_all add: example_files_def)
  show ?thesis
    using shape_mismatch_ends_comparison [OF f1 f2 cells_mesh_a cells_mesh_one]
    by (simp add: shape_def shape_str_def differ_msg_def str_nat.simps digit_def)
qed

subsection \<open>Empty range\<close>

text \<open>
  Claim C10. In range mode with \<open>start\<close> greater than \<open>end\<close> the script compares
  nothing: no file is opened, nothing is printed, and the script ends normally.
\<close>

theorem empty_range_does_nothing:
  assumes "a_start a = Some s" and "a_end a = Some e" and "e < s"
  shows "main fs a = ([], Inr ()) \<and> exit_status (snd (main fs a)) = 0"
  using assms by (simp add: main_def)

theorem empty_range_does_nothing_witness:
  "main example_files \<lparr>a_file1 = ''a'', a_file2 = ''b'', a_start = Some 3, a_end = Some 1\<rparr>
     = ([], Inr ())"
  using empty_range_does_nothing
    [of "\<lparr>a_file1 = ''a'', a_file2 = ''b'', a_start = Some 3, a_end = Some 1\<rparr>" 3 1 example_files]
  by simp

subsection \<open>Single-block meshes\<close>

text \<open>
  Claim C8. For a mesh with a direct point dataset, \<^verbatim>\<open>construct_fields\<close> returns the
  field group as it is when there is one and the empty mapping when there is none.
  \<^verbatim>\<open>construct_cells\<close> is the gather of the points through the connectivity and nothing
  more. When every connectivity entry, read as a signed index, lies in \<open>[-n, n)\<close> for the
  number \<open>n\<close> of points, the cell array is built: it has one cell per connectivity row, in
  the order of the rows, and the vertex \<open>j\<close> of the cell \<open>i\<close> is the point that the entry
  \<open>(i, j)\<close> selects, counted from the end when the index is negative. When some entry
  lies outside, the gather raises IndexError; without a connectivity dataset the script
  raises KeyError. In the witness the entry \<open>0xFFFFFFFFFFFFFFFF\<close>, which is \<open>-1\<close> as a
  signed index, selects the last point.
\<close>

theorem single_block_direct:
  "construct_fields (Single p conn (Some fm)) = fm
   \<and> construct_fields (Single p conn None) = []
   \<and> construct_cells (Single p None flds) = Inl KeyError
   \<and> ((\<forall>row\<in>set (crows c). \<forall>w\<in>set row.
          - int (length (prows p)) \<le> sint w \<and> sint w < int (length (prows p)))
        \<longrightarrow> (\<exists>a. construct_cells (Single p (Some c) flds) = Inr (Some a)
               \<and> shape a = (length (crows c), cwidth c, pdim p)
               \<and> (\<forall>i<length (crows c).
                     length (cells a ! i) = length (crows c ! i)
                     \<and> (\<forall>j<length (crows c ! i).
                           cells a ! i ! j =
                             prows p ! nat (if sint (crows c ! i ! j) < 0
                                            then int (length (prows p)) + sint (crows c ! i ! j)
                                            else sint (crows c ! i ! j))))))
   \<and> (\<not> (\<forall>row\<in>set (crows c). \<forall>w\<in>set row.
            - int (length (prows p)) \<le> sint w \<and> sint w < int (length (prows p)))
        \<longrightarrow> construct_cells (Single p (Some c) flds) = Inl IndexError)"
proof -
  let ?ok = "\<forall>row\<in>set (crows c). \<forall>w\<in>set row.
          - int (length (prows p)) \<le> sint w \<and> sint w < int (length (prows p))"
  have g: "gather p c =
      (if ?ok then Inr \<lparr>nverts = cwidth c, sdim = pdim p,
                cells = map (map (\<lambda>w. row_of (prows p) (sint w))) (crows c)\<rparr>
       else Inl IndexError)"
    by (simp add: gather_def list_all_iff valid_index_def)
  show ?thesis
    by (simp add: g shape_def row_of_def)
qed

theorem single_block_direct_witness:
  "construct_fields (Single square (Some conn_a) (Some [(''pressure'', [0x3FF0000000000000])]))
     = [(''pressure'', [0x3FF0000000000000])]
   \<and> construct_fields (Single square (Some conn_a) None) = []
   \<and> (\<exists>a. construct_cells
            (Single square (Some \<lparr>cwidth = 3, crows = [[0, 1, 0xFFFFFFFFFFFFFFFF]]\<rparr>) None)
              = Inr (Some a)
          \<and> shape a = (1, 3, 2)
          \<and> cells a ! 0 ! 1 = [0x3FF0000000000000, 0]
          \<and> cells a ! 0 ! 2 = [0x3FF0000000000000, 0x3FF0000000000000])
   \<and> construct_cells
        (Single square (Some \<lparr>cwidth = 3, crows = [[0, 1, 4]]\<rparr>) None) = Inl IndexError"
proof -
  have s1: "sint (0xFFFFFFFFFFFFFFFF :: 64 word) = - 1"
    by simp
  have n: "length (prows square) = 4"
    by (simp add: square_def)
  show ?thesis
    using single_block_direct [of square "Some conn_a" "[(''pressure'', [0x3FF0000000000000])]" None
        "\<lparr>cwidth = 3, crows = [[0, 1, 0xFFFFFFFFFFFFFFFF]]\<rparr>"]
      single_block_direct [of square "Some conn_a" "[(''pressure'', [0x3FF0000000000000])]" None
        "\<lparr>cwidth = 3, crows = [[0, 1, 4]]\<rparr>"]
    by (auto simp add: n s1 less_Suc_eq square_def numeral_2_eq_2)
qed

subsection \<open>Tolerance of the field comparison\<close>

text \<open>
  Claim C3, as stated, lets the comparison of a field pass exactly when every absolute
  difference is at most \<open>1e-14\<close>. The script tests \<^verbatim>\<open>> tol\<close>, and a comparison with a NaN
  is false: with the pressures \<open>1.0\<close> in the first file and NaN in the second on the same
  cell, the difference is a NaN, which is not at most \<open>1e-14\<close>, and the files are reported
  to be the same.
\<close>

theorem nan_difference_passes:
  "compare_meshes tolerance_files ''a.h5'' ''nan.h5'' =
     ([Opened ''a.h5'', Opened ''nan.h5'', Print ''files a.h5 and nan.h5 are the same''], Inr ())
   \<and> abs_diff 0x3FF0000000000000 0x7FF8000000000000 = 0x7FF8000000000000
   \<and> \<not> f64_le 0x7FF8000000000000 tol"
  by code_simp

text \<open>
  Claim C3, amended. For a field that both files have, with a value for every cell, the
  check of that field passes exactly when every absolute difference between the two
  reordered value sequences, computed in float64, is at most \<open>1e-14\<close> or is a NaN; it ends
  the process exactly when some difference is greater than \<open>1e-14\<close>. In the witness, on
  the cells of \<open>mesh_a\<close> in their sorted order, the difference between \<open>1e-14\<close> and zero is
  the tolerance itself and passes, and the difference between \<open>1e-13\<close> and zero does not.
  The difference between \<open>1e-14\<close> and \<open>-2 ^ (-101)\<close> (\<open>0xB9A0000000000000\<close>) is greater than
  the tolerance before rounding and is the tolerance after it.
\<close>

theorem field_check_tolerance:
  assumes "map_of field1 f = Some v1" and "map_of field2 f = Some v2"
    and "\<forall>i\<in>set index1. i < length v1" and "\<forall>i\<in>set index2. i < length v2"
    and "length index1 = length index2"
  shows "(check_field file1 file2 cells1 cells2 index1 index2 field1 field2 f = ([], Inr ())
          \<longleftrightarrow> (\<forall>i<length index1.
                 f64_le (abs_diff (v1 ! (index1 ! i)) (v2 ! (index2 ! i))) tol
                 \<or> f64_isnan (abs_diff (v1 ! (index1 ! i)) (v2 ! (index2 ! i)))))
       \<and> (snd (check_field file1 file2 cells1 cells2 index1 index2 field1 field2 f) \<noteq> Inr ()
          \<longleftrightarrow> (\<exists>i<length index1.
                 f64_gt (abs_diff (v1 ! (index1 ! i)) (v2 ! (index2 ! i))) tol))"
proof -
  let ?P = "\<forall>i<length index1. \<not> f64_gt (abs_diff (v1 ! (index1 ! i)) (v2 ! (index2 ! i))) tol"
  let ?r = "check_field file1 file2 cells1 cells2 index1 index2 field1 field2 f"
  have le: "?P \<longleftrightarrow> (\<forall>i<length index1.
                 f64_le (abs_diff (v1 ! (index1 ! i)) (v2 ! (index2 ! i))) tol
                 \<or> f64_isnan (abs_diff (v1 ! (index1 ! i)) (v2 ! (index2 ! i))))"
    by (simp only: not_gt_tol_iff)
  have gt: "\<not> ?P \<longleftrightarrow> (\<exists>i<length index1.
                 f64_gt (abs_diff (v1 ! (index1 ! i)) (v2 ! (index2 ! i))) tol)"
    by blast
  show ?thesis
  proof (cases ?P)
    case True
    then have "?r = ([], Inr ())"
      by (rule check_field_cases(1) [OF assms])
    then have "?r = ([], Inr ())" and "snd ?r = Inr ()"
      by simp_all
    with True le gt show ?thesis
      by blast
  next
    case False
    then have "snd ?r = Inl (SysExit None)"
      by (rule check_field_cases(2) [OF assms])
    then have "?r \<noteq> ([], Inr ())" and "snd ?r \<noteq> Inr ()"
      by auto
    with False le gt show ?thesis
      by blast
  qed
qed

theorem field_check_tolerance_witness:
  "sort_index (cells cells_a) = [0, 1]
   \<and> abs_diff 0x3D06849B86A12B9B 0 = tol
   \<and> abs_diff 0x3D06849B86A12B9B 0xB9A0000000000000 = tol
   \<and> check_field ''t.h5'' ''z.h5'' (cells cells_a) (cells cells_a) [0, 1] [0, 1]
        [(''pressure'', [0x3D06849B86A12B9B, 0x4000000000000000])]
        [(''pressure'', [0, 0x4000000000000000])] ''pressure'' = ([], Inr ())
   \<and> compare_meshes tolerance_files ''t.h5'' ''z.h5'' =
        ([Opened ''t.h5'', Opened ''z.h5'', Print ''files t.h5 and z.h5 are the same''], Inr ())
   \<and> abs_diff 0x3D3C25C268497682 0 = 0x3D3C25C268497682
   \<and> snd (check_field ''u.h5'' ''z.h5'' (cells cells_a) (cells cells_a) [0, 1] [0, 1]
        [(''pressure'', [0x3D3C25C268497682, 0x4000000000000000])]
        [(''pressure'', [0, 0x4000000000000000])] ''pressure'') \<noteq> Inr ()
   \<and> snd (compare_meshes tolerance_files ''u.h5'' ''z.h5'') = Inl (SysExit None)"
proof -
  have idx: "sort_index (cells cells_a) = [0, 1]"
    by code_simp
  have d0: "abs_diff 0x3D06849B86A12B9B 0 = tol"
    by code_simp
  have d1: "abs_diff 0x4000000000000000 0x4000000000000000 = 0"
    by code_simp
  have d3: "abs_diff 0x3D06849B86A12B9B 0xB9A0000000000000 = tol"
    by code_simp
  have d2: "abs_diff 0x3D3C25C268497682 0 = 0x3D3C25C268497682"
    by code_simp
  have c: "f64_le tol tol" "f64_le 0 tol" "f64_gt 0x3D3C25C268497682 tol"
    by code_simp+
  have run1: "compare_meshes tolerance_files ''t.h5'' ''z.h5'' =
        ([Opened ''t.h5'', Opened ''z.h5'', Print ''files t.h5 and z.h5 are the same''], Inr ())"
    by code_simp
  have run2: "snd (compare_meshes tolerance_files ''u.h5'' ''z.h5'') = Inl (SysExit None)"
    by code_simp
  have pass: "check_field ''t.h5'' ''z.h5'' (cells cells_a) (cells cells_a) [0, 1] [0, 1]
        [(''pressure'', [0x3D06849B86A12B9B, 0x4000000000000000])]
        [(''pressure'', [0, 0x4000000000000000])] ''pressure'' = ([], Inr ())"
    using field_check_tolerance
      [of "[(''pressure'', [0x3D06849B86A12B9B, 0x4000000000000000])]" "''pressure''"
          "[0x3D06849B86A12B9B, 0x4000000000000000]"
          "[(''pressure'', [0, 0x4000000000000000])]" "[0, 0x4000000000000000]"
          "[0, 1]" "[0, 1]" "''t.h5''" "''z.h5''" "cells cells_a" "cells cells_a"]
    by (simp add: less_Suc_eq d0 d1 c)
  have ex: "\<exists>i<length [0, 1::nat].
      f64_gt (abs_diff ([0x3D3C25C268497682, 0x4000000000000000] ! ([0, 1] ! i))
                ([0, 0x4000000000000000] ! ([0, 1] ! i))) tol"
    by (rule exI [of _ 0]) (simp add: d2 c)
  have h: "map_of [(''pressure'', [0x3D3C25C268497682, 0x4000000000000000 :: f64])] ''pressure''
        = Some [0x3D3C25C268497682, 0x4000000000000000]"
      "map_of [(''pressure'', [0, 0x4000000000000000 :: f64])] ''pressure''
        = Some [0, 0x4000000000000000]"
      "\<forall>i\<in>set [0, 1::nat]. i < length [0x3D3C25C268497682, 0x4000000000000000 :: f64]"
      "\<forall>i\<in>set [0, 1::nat]. i < length [0, 0x4000000000000000 :: f64]"
      "length [0, 1::nat] = length [0, 1::nat]"
    by simp_all
  have fail: "snd (check_field ''u.h5'' ''z.h5'' (cells cells_a) (cells cells_a) [0, 1] [0, 1]
        [(''pressure'', [0x3D3C25C268497682, 0x4000000000000000])]
        [(''pressure'', [0, 0x4000000000000000])] ''pressure'') \<noteq> Inr ()"
    using field_check_tolerance [OF h, THEN conjunct2, THEN iffD2, OF ex] .
  from idx d0 d3 pass run1 d2 fail run2 show ?thesis
    by (simp only: simp_thms)
qed

subsection \<open>Exit status of a field mismatch\<close>

text \<open>
  Claim C2 asks that every mismatch end the process with an error status. The branches
  for the shapes, the coordinates and a missing field call \<^verbatim>\<open>sys.exit\<close> with a message,
  which gives status 1. The branch for a field value out of tolerance calls
  \<^verbatim>\<open>sys.exit()\<close> without an argument: on \<open>mesh_a\<close> against \<open>mesh_c\<close>, whose pressures
  differ by \<open>2e-14\<close> on one cell, the script prints the diagnostic and ends with status 0.
  The values printed are \<open>1.0\<close>, the float64 of \<open>1.0 + 2e-14\<close> and their float64 difference
  \<open>0x3D16800000000000\<close>, which is \<open>90 * 2 ^ (-52)\<close>, about \<open>1.998e-14\<close>.
\<close>

theorem field_mismatch_exits_with_status_zero:
  "compare_meshes example_files ''a.h5'' ''c.h5'' =
     ([Opened ''a.h5'', Opened ''c.h5'',
       PrintValues [0x3FF0000000000000] [0x3FF000000000005A] [0x3D16800000000000],
       PrintCells [[[0, 0], [0x3FF0000000000000, 0], [0, 0x3FF0000000000000]]]
                  [[[0, 0], [0x3FF0000000000000, 0], [0, 0x3FF0000000000000]]],
       Print ''pressure is not the same''],
      Inl (SysExit None))
   \<and> exit_status (snd (compare_meshes example_files ''a.h5'' ''c.h5'')) = 0"
  by code_simp

subsection \<open>Range mode\<close>

text \<open>
  Claim C6. With both \<^verbatim>\<open>--start\<close> and \<^verbatim>\<open>--end\<close> given, the script compares the files of
  the indices \<open>start\<close>, \<open>start + 1\<close>, ... in this order. If every comparison returns, the
  trace is the concatenation of the traces of all indices up to \<open>end\<close> and the script
  ends normally. If the comparison of index \<open>k\<close> is the first that ends the process,
  the trace is the concatenation of the traces of the indices up to \<open>k\<close>, the script
  ends as that comparison does, and the files of later indices play no part: any
  other files that agree on the indices up to \<open>k\<close> give the same run.
\<close>

theorem range_mode_sequential:
  assumes "a_start a = Some s" and "a_end a = Some e"
  shows "((\<forall>i\<in>{s..e}. snd (compare_index fs (a_file1 a) (a_file2 a) i) = Inr ()) \<longrightarrow>
            main fs a =
              (concat (map (\<lambda>i. fst (compare_index fs (a_file1 a) (a_file2 a) i)) [s..e]), Inr ()))
       \<and> (\<forall>k\<in>{s..e}.
            (\<forall>i\<in>{s..<k}. snd (compare_index fs (a_file1 a) (a_file2 a) i) = Inr ())
            \<and> snd (compare_index fs (a_file1 a) (a_file2 a) k) \<noteq> Inr () \<longrightarrow>
            main fs a =
              (concat (map (\<lambda>i. fst (compare_index fs (a_file1 a) (a_file2 a) i)) [s..k]),
               snd (compare_index fs (a_file1 a) (a_file2 a) k))
            \<and> (\<forall>fs'. (\<forall>i\<in>{s..k}. fs' (a_file1 a @ str_int i @ ''.h5'') = fs (a_file1 a @ str_int i @ ''.h5'')
                            \<and> fs' (a_file2 a @ str_int i @ ''.h5'') = fs (a_file2 a @ str_int i @ ''.h5''))
                  \<longrightarrow> main fs' a = main fs a))"
proof (intro conjI impI ballI allI)
  assume "\<forall>i\<in>{s..e}. snd (compare_index fs (a_file1 a) (a_file2 a) i) = Inr ()"
  then show "main fs a =
      (concat (map (\<lambda>i. fst (compare_index fs (a_file1 a) (a_file2 a) i)) [s..e]), Inr ())"
    using assms by (simp add: main_def run_range_all_ok)
next
  fix k
  assume k: "k \<in> {s..e}"
    and ok: "(\<forall>i\<in>{s..<k}. snd (compare_index fs (a_file1 a) (a_file2 a) i) = Inr ())
            \<and> snd (compare_index fs (a_file1 a) (a_file2 a) k) \<noteq> Inr ()"
  from k have split: "[s..e] = [s..k - 1] @ k # [k + 1..e]"
    by (simp add: upto_split3)
  have pre: "[s..k - 1] @ [k] = [s..k]"
    using k by (simp add: upto_rec2)
  have set_pre: "set [s..k - 1] = {s..<k}"
    by auto
  show m: "main fs a =
      (concat (map (\<lambda>i. fst (compare_index fs (a_file1 a) (a_file2 a) i)) [s..k]),
       snd (compare_index fs (a_file1 a) (a_file2 a) k))"
    using assms ok run_range_stops [of "[s..k - 1]" fs "a_file1 a" "a_file2 a" k "[k + 1..e]"]
    by (simp add: main_def split pre set_pre del: upto.simps)
  fix fs'
  assume agree: "\<forall>i\<in>{s..k}. fs' (a_file1 a @ str_int i @ ''.h5'') = fs (a_file1 a @ str_int i @ ''.h5'')
                            \<and> fs' (a_file2 a @ str_int i @ ''.h5'') = fs (a_file2 a @ str_int i @ ''.h5'')"
  have same: "compare_index fs' (a_file1 a) (a_file2 a) i = compare_index fs (a_file1 a) (a_file2 a) i"
    if "i \<in> {s..k}" for i
  proof -
    from agree that
    have "fs' (a_file1 a @ str_int i @ ''.h5'') = fs (a_file1 a @ str_int i @ ''.h5'')"
      and "fs' (a_file2 a @ str_int i @ ''.h5'') = fs (a_file2 a @ str_int i @ ''.h5'')"
      by blast+
    then show ?thesis
      unfolding compare_index_def by (rule compare_meshes_cong)
  qed
  have in_range: "i \<in> {s..k}" if "i \<in> {s..<k}" for i
    using that by simp
  have ok': "(\<forall>i\<in>{s..<k}. snd (compare_index fs' (a_file1 a) (a_file2 a) i) = Inr ())
            \<and> snd (compare_index fs' (a_file1 a) (a_file2 a) k) \<noteq> Inr ()"
  proof
    show "\<forall>i\<in>{s..<k}. snd (compare_index fs' (a_file1 a) (a_file2 a) i) = Inr ()"
    proof
      fix i
      assume i: "i \<in> {s..<k}"
      with ok have "snd (compare_index fs (a_file1 a) (a_file2 a) i) = Inr ()"
        by blast
      with same [OF in_range [OF i]]
      show "snd (compare_index fs' (a_file1 a) (a_file2 a) i) = Inr ()"
        by (simp only:)
    qed
    from k have "k \<in> {s..k}"
      by simp
    from same [OF this] ok
    show "snd (compare_index fs' (a_file1 a) (a_file2 a) k) \<noteq> Inr ()"
      by simp
  qed
  have outs: "map (\<lambda>i. fst (compare_index fs' (a_file1 a) (a_file2 a) i)) [s..k]
      = map (\<lambda>i. fst (compare_index fs (a_file1 a) (a_file2 a) i)) [s..k]"
    by (rule map_cong [OF refl]) (simp add: same)
  from k have last: "compare_index fs' (a_file1 a) (a_file2 a) k
      = compare_index fs (a_file1 a) (a_file2 a) k"
    by (intro same) simp
  have "main fs' a =
      (concat (map (\<lambda>i. fst (compare_index fs' (a_file1 a) (a_file2 a) i)) [s..k]),
       snd (compare_index fs' (a_file1 a) (a_file2 a) k))"
    using assms ok' run_range_stops [of "[s..k - 1]" fs' "a_file1 a" "a_file2 a" k "[k + 1..e]"]
    by (simp add: main_def split pre set_pre del: upto.simps)
  also have "\<dots> = main fs a"
    by (simp only: outs last m)
  finally show "main fs' a = main fs a" .
qed

theorem range_mode_sequential_witness:
  "main range_files \<lparr>a_file1 = ''x'', a_file2 = ''y'', a_start = Some 0, a_end = Some 2\<rparr> =
     ([Opened ''x0.h5'', Opened ''y0.h5'', Print ''files x0.h5 and y0.h5 are the same'',
       Opened ''x1.h5'', Opened ''y1.h5'', Print ''shape are not compatibles'',
       Print ''(1, 3, 2) vs (2, 3, 2)''],
      Inl (SysExit (Some ''files x1.h5 and y1.h5 are different'')))"
proof -
  let ?a = "\<lparr>a_file1 = ''x'', a_file2 = ''y'', a_start = Some 0, a_end = Some 2\<rparr>"
  have c0: "compare_index range_files ''x'' ''y'' 0 =
      ([Opened ''x0.h5'', Opened ''y0.h5'', Print ''files x0.h5 and y0.h5 are the same''], Inr ())"
    by code_simp
  have c1: "compare_index range_files ''x'' ''y'' 1 =
      ([Opened ''x1.h5'', Opened ''y1.h5'', Print ''shape are not compatibles'',
        Print ''(1, 3, 2) vs (2, 3, 2)''],
       Inl (SysExit (Some ''files x1.h5 and y1.h5 are different'')))"
    by code_simp
  have pre: "\<forall>i\<in>{0..<1::int}. snd (compare_index range_files ''x'' ''y'' i) = Inr ()"
  proof
    fix i :: int
    assume "i \<in> {0..<1}"
    then have "i = 0" by auto
    then show "snd (compare_index range_files ''x'' ''y'' i) = Inr ()"
      by (simp add: c0)
  qed
  have l: "[0..1::int] = [0, 1]"
    by (simp add: upto.simps)
  have A: "a_start ?a = Some 0" "a_end ?a = Some 2"
    by simp_all
  have k: "(1::int) \<in> {0..2}"
    by simp
  have hyp: "(\<forall>i\<in>{0..<1}. snd (compare_index range_files (a_file1 ?a) (a_file2 ?a) i) = Inr ())
      \<and> snd (compare_index range_files (a_file1 ?a) (a_file2 ?a) 1) \<noteq> Inr ()"
    using pre c1 by simp
  from range_mode_sequential [OF A, of range_files, THEN conjunct2, THEN bspec, OF k,
      THEN mp, OF hyp, THEN conjunct1]
  show ?thesis
    by (simp add: l c0 c1)
qed

subsection \<open>Missing fields\<close>

text \<open>
  Claim C4, as stated, asks that the comparison name every field that the first file
  has and the second lacks. The loop over the fields of the first file ends the process
  at the first field that fails: with the fields \<open>p\<close> and \<open>q\<close> in the first file and none
  in the second, the run names \<open>p\<close> and never reaches \<open>q\<close>.
\<close>

theorem second_missing_field_not_named:
  "''q'' \<in> set (map fst (construct_fields mesh_pq))
   \<and> ''q'' \<notin> set (map fst (construct_fields mesh_none))
   \<and> compare_meshes field_files ''pq.h5'' ''none.h5'' =
       ([Opened ''pq.h5'', Opened ''none.h5'', Print ''p is not in second file''],
        Inl (SysExit (Some ''files pq.h5 and none.h5 are different'')))
   \<and> Print ''q is not in second file'' \<notin> set (fst (compare_meshes field_files ''pq.h5'' ''none.h5''))"
  by code_simp

text \<open>
  Claim C4, amended. A field of the first file that the second file lacks makes the
  comparison fail: it never returns normally. The comparison ends at that field, naming
  it and with the message that the files are different, when it reaches the field:
  the cell arrays agree and every field before it in the first file passes its check.
  A field that only the second file has is never looked at: two second files with the
  same cells, which agree on every field of the first file, give the same run.
\<close>

theorem missing_field_asymmetry:
  assumes "fs file1 = Some (Some mesh1)" and "fs file2 = Some (Some mesh2)"
  shows "(f \<in> set (map fst (construct_fields mesh1)) \<and> f \<notin> set (map fst (construct_fields mesh2))
          \<longrightarrow> snd (compare_meshes fs file1 file2) \<noteq> Inr ())
     \<and> (construct_cells mesh1 = Inr (Some c1) \<and> construct_cells mesh2 = Inr (Some c2)
          \<and> cells_agree c1 c2
          \<and> map fst (construct_fields mesh1) = pre @ f # post
          \<and> f \<notin> set (map fst (construct_fields mesh2))
          \<and> (\<forall>g\<in>set pre.
                check_field file1 file2 (cells c1) (cells c2)
                  (sort_index (cells c1)) (sort_index (cells c2))
                  (construct_fields mesh1) (construct_fields mesh2) g = ([], Inr ()))
          \<longrightarrow> compare_meshes fs file1 file2 =
                ([Opened file1, Opened file2, Print (f @ '' is not in second file'')],
                 Inl (SysExit (Some (differ_msg file1 file2)))))
     \<and> (fs' file1 = fs file1 \<and> fs' file2 = Some (Some mesh2')
          \<and> construct_cells mesh2' = construct_cells mesh2
          \<and> (\<forall>g\<in>set (map fst (construct_fields mesh1)).
                map_of (construct_fields mesh2') g = map_of (construct_fields mesh2) g)
          \<longrightarrow> compare_meshes fs' file1 file2 = compare_meshes fs file1 file2)"
proof (intro conjI impI)
  assume "f \<in> set (map fst (construct_fields mesh1)) \<and> f \<notin> set (map fst (construct_fields mesh2))"
  then have f1: "f \<in> set (map fst (construct_fields mesh1))"
    and f2: "map_of (construct_fields mesh2) f = None"
    by (simp_all add: map_of_eq_None_iff)
  show "snd (compare_meshes fs file1 file2) \<noteq> Inr ()"
  proof
    assume "snd (compare_meshes fs file1 file2) = Inr ()"
    then have "snd (compare_loaded file1 file2 mesh1 mesh2) = Inr ()"
      by (simp add: compare_meshes_loaded [OF assms])
    from compare_loaded_ok_fields [OF this] check_fields_missing [OF f1 f2]
    show False by blast
  qed
next
  assume h: "construct_cells mesh1 = Inr (Some c1) \<and> construct_cells mesh2 = Inr (Some c2)
          \<and> cells_agree c1 c2
          \<and> map fst (construct_fields mesh1) = pre @ f # post
          \<and> f \<notin> set (map fst (construct_fields mesh2))
          \<and> (\<forall>g\<in>set pre.
                check_field file1 file2 (cells c1) (cells c2)
                  (sort_index (cells c1)) (sort_index (cells c2))
                  (construct_fields mesh1) (construct_fields mesh2) g = ([], Inr ()))"
  then have m1: "construct_cells mesh1 = Inr (Some c1)" and m2: "construct_cells mesh2 = Inr (Some c2)"
    and agree: "cells_agree c1 c2"
    and names: "map fst (construct_fields mesh1) = pre @ f # post"
    and f2: "map_of (construct_fields mesh2) f = None"
    and pre: "\<forall>g\<in>set pre.
                check_field file1 file2 (cells c1) (cells c2)
                  (sort_index (cells c1)) (sort_index (cells c2))
                  (construct_fields mesh1) (construct_fields mesh2) g = ([], Inr ())"
    by (simp_all add: map_of_eq_None_iff)
  have "check_fields file1 file2 (cells c1) (cells c2)
          (sort_index (cells c1)) (sort_index (cells c2))
          (construct_fields mesh1) (construct_fields mesh2) (pre @ f # post)
      = ([Print (f @ '' is not in second file'')], Inl (SysExit (Some (differ_msg file1 file2))))"
    by (simp add: check_fields_first_failure [OF pre] check_field_missing [OF f2])
  then have "compare_loaded file1 file2 mesh1 mesh2
      = ([Print (f @ '' is not in second file'')], Inl (SysExit (Some (differ_msg file1 file2))))"
    by (simp add: compare_loaded_fields [OF m1 m2 agree] names)
  then show "compare_meshes fs file1 file2 =
                ([Opened file1, Opened file2, Print (f @ '' is not in second file'')],
                 Inl (SysExit (Some (differ_msg file1 file2))))"
    by (simp add: compare_meshes_loaded [OF assms])
next
  assume h: "fs' file1 = fs file1 \<and> fs' file2 = Some (Some mesh2')
          \<and> construct_cells mesh2' = construct_cells mesh2
          \<and> (\<forall>g\<in>set (map fst (construct_fields mesh1)).
                map_of (construct_fields mesh2') g = map_of (construct_fields mesh2) g)"
  then have o1: "fs' file1 = Some (Some mesh1)" and o2: "fs' file2 = Some (Some mesh2')"
    and cc: "construct_cells mesh2' = construct_cells mesh2"
    and same: "\<forall>g\<in>set (map fst (construct_fields mesh1)).
                map_of (construct_fields mesh2') g = map_of (construct_fields mesh2) g"
    using assms by simp_all
  have "compare_loaded file1 file2 mesh1 mesh2' = compare_loaded file1 file2 mesh1 mesh2"
    unfolding compare_loaded_def cc Let_def check_fields_cong [OF same] ..
  then show "compare_meshes fs' file1 file2 = compare_meshes fs file1 file2"
    by (simp add: compare_meshes_loaded [OF assms] compare_meshes_loaded [OF o1 o2])
qed


theorem missing_field_asymmetry_witness:
  "snd (compare_meshes field_files ''pq.h5'' ''p.h5'') \<noteq> Inr ()
   \<and> compare_meshes field_files ''pq.h5'' ''p.h5'' =
       ([Opened ''pq.h5'', Opened ''p.h5'', Print ''q is not in second file''],
        Inl (SysExit (Some ''files pq.h5 and p.h5 are different'')))
   \<and> compare_meshes (field_files(''p2.h5'' := Some (Some mesh_pr))) ''p.h5'' ''p2.h5''
       = compare_meshes field_files ''p.h5'' ''p2.h5''
   \<and> compare_meshes field_files ''p.h5'' ''p2.h5'' =
       ([Opened ''p.h5'', Opened ''p2.h5'', Print ''files p.h5 and p2.h5 are the same''], Inr ())"
proof -
  have o1: "field_files ''pq.h5'' = Some (Some mesh_pq)"
    and o2: "field_files ''p.h5'' = Some (Some mesh_p)"
    and o3: "field_files ''p2.h5'' = Some (Some mesh_p)"
    by (simp_all add: field_files_def)
  have c1: "construct_cells mesh_pq = Inr (Some cells_a)"
    and c2: "construct_cells mesh_p = Inr (Some cells_a)"
    and c3: "construct_cells mesh_pr = construct_cells mesh_p"
    by code_simp+
  have agree: "cells_agree cells_a cells_a"
    by code_simp
  have names: "map fst (construct_fields mesh_pq) = [''p''] @ ''q'' # []"
    and q1: "''q'' \<in> set (map fst (construct_fields mesh_pq))"
    and q2: "''q'' \<notin> set (map fst (construct_fields mesh_p))"
    by code_simp+
  have p: "\<forall>g\<in>set [''p''].
      check_field ''pq.h5'' ''p.h5'' (cells cells_a) (cells cells_a)
        (sort_index (cells cells_a)) (sort_index (cells cells_a))
        (construct_fields mesh_pq) (construct_fields mesh_p) g = ([], Inr ())"
    by code_simp
  have extra: "\<forall>g\<in>set (map fst (construct_fields mesh_p)).
      map_of (construct_fields mesh_pr) g = map_of (construct_fields mesh_p) g"
    by code_simp
  have same: "compare_meshes field_files ''p.h5'' ''p2.h5'' =
       ([Opened ''p.h5'', Opened ''p2.h5'', Print ''files p.h5 and p2.h5 are the same''], Inr ())"
    by code_simp
  note A = missing_field_asymmetry [where fs = field_files and ?file1.0 = "''pq.h5''"
      and ?file2.0 = "''p.h5''" and f = "''q''" and ?c1.0 = cells_a
      and ?c2.0 = cells_a and pre = "[''p'']" and post = "[]", OF o1 o2]
  note B = missing_field_asymmetry [where fs = field_files and ?file1.0 = "''p.h5''"
      and ?file2.0 = "''p2.h5''" and fs' = "field_files(''p2.h5'' := Some (Some mesh_pr))"
      and mesh2' = mesh_pr, OF o2 o3]
  from A q1 q2 have a: "snd (compare_meshes field_files ''pq.h5'' ''p.h5'') \<noteq> Inr ()"
    by blast
  from A c1 c2 agree names q2 p
  have b: "compare_meshes field_files ''pq.h5'' ''p.h5'' =
       ([Opened ''pq.h5'', Opened ''p.h5'', Print (''q'' @ '' is not in second file'')],
        Inl (SysExit (Some (differ_msg ''pq.h5'' ''p.h5''))))"
    by blast
  have "(field_files(''p2.h5'' := Some (Some mesh_pr))) ''p.h5'' = field_files ''p.h5''"
    and "(field_files(''p2.h5'' := Some (Some mesh_pr))) ''p2.h5'' = Some (Some mesh_pr)"
    by simp_all
  with B c3 extra
  have c: "compare_meshes (field_files(''p2.h5'' := Some (Some mesh_pr))) ''p.h5'' ''p2.h5''
       = compare_meshes field_files ''p.h5'' ''p2.h5''"
    by blast
  from a b c same show ?thesis
    by (simp add: differ_msg_def)
qed

subsection \<open>Meshes of several sub-blocks\<close>

text \<open>
  Claim C7. Take a mesh of sub-blocks, at least one, each of which has its points and
  its connectivity with every index in range, all with the same number of vertices in a
  cell and the same dimension of space. \<^verbatim>\<open>construct_cells\<close> returns the gathered cell
  arrays of the sub-blocks concatenated in their order, and \<^verbatim>\<open>construct_fields\<close> the
  field values of the sub-blocks concatenated in their order, name by name. A
  single-block mesh whose gathered cells and whose fields are these concatenations
  gives the same run as the mesh of sub-blocks, as the first file of a comparison and
  as the second, against any other mesh.
\<close>

theorem multi_block_concatenation:
  assumes "bs \<noteq> []"
    and "map (\<lambda>kb. block_cells (snd kb)) bs = map Inr gs"
    and "\<forall>g\<in>set gs. nverts g = v \<and> sdim g = d"
    and "\<forall>kb\<in>set bs. distinct (block_names (snd kb))"
  shows "construct_cells (Multi bs)
           = Inr (Some \<lparr>nverts = v, sdim = d, cells = concat (map cells gs)\<rparr>)
     \<and> construct_fields (Multi bs) = concat_fields bs
     \<and> (gather p c = Inr \<lparr>nverts = v, sdim = d, cells = concat (map cells gs)\<rparr> \<longrightarrow>
          compare_loaded file1 file2 (Multi bs) other
            = compare_loaded file1 file2 (Single p (Some c) (Some (concat_fields bs))) other
          \<and> compare_loaded file1 file2 other (Multi bs)
            = compare_loaded file1 file2 other (Single p (Some c) (Some (concat_fields bs))))"
proof (intro conjI impI)
  show cs: "construct_cells (Multi bs)
           = Inr (Some \<lparr>nverts = v, sdim = d, cells = concat (map cells gs)\<rparr>)"
    using assms(1-3) by (rule construct_cells_Multi)
  show fs: "construct_fields (Multi bs) = concat_fields bs"
    using assms(4) by (rule construct_fields_Multi)
  assume g: "gather p c = Inr \<lparr>nverts = v, sdim = d, cells = concat (map cells gs)\<rparr>"
  have cs': "construct_cells (Multi bs) = construct_cells (Single p (Some c) (Some (concat_fields bs)))"
    unfolding cs by (simp add: g)
  have fs': "construct_fields (Multi bs) = construct_fields (Single p (Some c) (Some (concat_fields bs)))"
    unfolding fs by simp
  show "compare_loaded file1 file2 (Multi bs) other
            = compare_loaded file1 file2 (Single p (Some c) (Some (concat_fields bs))) other"
    by (rule compare_loaded_cong [OF cs' fs' refl refl])
  show "compare_loaded file1 file2 other (Multi bs)
            = compare_loaded file1 file2 other (Single p (Some c) (Some (concat_fields bs)))"
    by (rule compare_loaded_cong [OF refl refl cs' fs'])
qed

theorem multi_block_concatenation_witness:
  "construct_cells (Multi two_blocks) = construct_cells mesh_a
   \<and> construct_fields (Multi two_blocks) = construct_fields mesh_a
   \<and> compare_loaded ''x.h5'' ''y.h5'' (Multi two_blocks) mesh_b
        = compare_loaded ''x.h5'' ''y.h5'' mesh_a mesh_b
   \<and> compare_loaded ''x.h5'' ''y.h5'' mesh_c (Multi two_blocks)
        = compare_loaded ''x.h5'' ''y.h5'' mesh_c mesh_a
   \<and> compare_loaded ''x.h5'' ''y.h5'' (Multi two_blocks) mesh_b
        = ([Print ''files x.h5 and y.h5 are the same''], Inr ())"
proof -
  let ?g0 = "\<lparr>nverts = 3, sdim = 2,
      cells = [[[0, 0], [0x3FF0000000000000, 0], [0, 0x3FF0000000000000 :: f64]]]\<rparr>"
  let ?g1 = "\<lparr>nverts = 3, sdim = 2,
      cells = [[[0x3FF0000000000000, 0], [0x3FF0000000000000, 0x3FF0000000000000],
                [0, 0x3FF0000000000000 :: f64]]]\<rparr>"
  have a1: "two_blocks \<noteq> []"
    by (simp add: two_blocks_def)
  have a2: "map (\<lambda>kb. block_cells (snd kb)) two_blocks = map Inr [?g0, ?g1]"
    by code_simp
  have a3: "\<forall>g\<in>set [?g0, ?g1]. nverts g = 3 \<and> sdim g = 2"
    by simp
  have a4: "\<forall>kb\<in>set two_blocks. distinct (block_names (snd kb))"
    by (simp add: two_blocks_def block_names_def)
  have g: "gather square conn_a
      = Inr \<lparr>nverts = 3, sdim = 2, cells = concat (map cells [?g0, ?g1])\<rparr>"
    by code_simp
  have f: "concat_fields two_blocks = [(''pressure'', [0x3FF0000000000000, 0x4000000000000000])]"
    by code_simp
  have a: "mesh_a = Single square (Some conn_a) (Some (concat_fields two_blocks))"
    by (simp add: f mesh_a_def)
  have cells_a: "construct_cells mesh_a
      = Inr (Some \<lparr>nverts = 3, sdim = 2, cells = concat (map cells [?g0, ?g1])\<rparr>)"
    by (simp add: a g)
  have run: "compare_loaded ''x.h5'' ''y.h5'' mesh_a mesh_b
        = ([Print ''files x.h5 and y.h5 are the same''], Inr ())"
    by code_simp
  have fa: "construct_fields mesh_a = concat_fields two_blocks"
    by (simp add: f mesh_a_def)
  note th = multi_block_concatenation [OF a1 a2 a3 a4, of square conn_a, unfolded a [symmetric]]
  from th [of "''x.h5''" "''y.h5''" mesh_b] th [of "''x.h5''" "''y.h5''" mesh_c] g cells_a run fa
  show ?thesis
    by simp
qed

subsection \<open>A field that some sub-blocks lack\<close>

text \<open>
  Claim C9, as stated, lets every mesh of sub-blocks in which a field is present in some
  sub-blocks only end the comparison with an indexing error. In \<open>blocks_empty\<close> the
  sub-block without the field has no cell: the pressure has a value for every cell of
  the mesh, and the mesh compared with itself is reported to be the same. In
  \<open>blocks_partial\<close> the pressure is one value short, but against \<open>mesh_one\<close> the comparison
  ends at the shapes, with the message that the files are different, before any field
  is read.
\<close>

theorem partial_field_without_index_error:
  "block_names (snd (blocks_empty ! 0)) = [''pressure'']
   \<and> block_names (snd (blocks_empty ! 1)) = []
   \<and> construct_cells (Multi blocks_empty) = Inr (Some cells_a)
   \<and> construct_fields (Multi blocks_empty)
        = [(''pressure'', [0x3FF0000000000000, 0x4000000000000000])]
   \<and> compare_loaded ''x.h5'' ''y.h5'' (Multi blocks_empty) (Multi blocks_empty)
        = ([Print ''files x.h5 and y.h5 are the same''], Inr ())
   \<and> block_names (snd (blocks_partial ! 0)) = [''pressure'']
   \<and> block_names (snd (blocks_partial ! 1)) = []
   \<and> construct_cells (Multi blocks_partial) = Inr (Some cells_a)
   \<and> construct_fields (Multi blocks_partial) = [(''pressure'', [0x3FF0000000000000])]
   \<and> compare_loaded ''x.h5'' ''y.h5'' (Multi blocks_partial) mesh_one
        = ([Print ''shape are not compatibles'', Print ''(2, 3, 2) vs (1, 3, 2)''],
           Inl (SysExit (Some ''files x.h5 and y.h5 are different'')))"
  by code_simp

text \<open>
  Claim C9, amended. Take a mesh of sub-blocks that all gather, with the same number of
  vertices in a cell and the same dimension, and a field that some sub-block has, with
  one value per cell of the sub-block wherever it is present, and that is absent from a
  sub-block with at least one cell. Then \<^verbatim>\<open>construct_fields\<close> gives that field fewer values
  than the mesh has cells. When the comparison reaches the field, the index array of
  the cells reaches beyond its values and the script ends with an uncaught IndexError,
  having printed nothing about this field: as the first file, when the cell arrays
  agree, the fields before it pass and the second file has the field; as the second
  file, when moreover the first file has a value of the field for every cell.
\<close>

theorem partial_field_index_error:
  assumes "bs \<noteq> []"
    and "map (\<lambda>kb. block_cells (snd kb)) bs = map Inr gs"
    and "\<forall>g\<in>set gs. nverts g = v \<and> sdim g = d"
    and "\<forall>kb\<in>set bs. distinct (block_names (snd kb))"
    and "\<exists>kb\<in>set bs. f \<in> set (block_names (snd kb))"
    and "\<forall>kb\<in>set bs. f \<in> set (block_names (snd kb)) \<longrightarrow>
           length (block_values f (snd kb)) = block_count (snd kb)"
    and "\<exists>kb\<in>set bs. f \<notin> set (block_names (snd kb)) \<and> 0 < block_count (snd kb)"
  shows "(\<exists>c vs. construct_cells (Multi bs) = Inr (Some c)
            \<and> map_of (construct_fields (Multi bs)) f = Some vs
            \<and> length vs < length (cells c))
     \<and> (construct_cells (Multi bs) = Inr (Some c1)
          \<and> construct_cells mesh2 = Inr (Some c2)
          \<and> cells_agree c1 c2
          \<and> map fst (construct_fields (Multi bs)) = pre @ f # post
          \<and> (\<forall>g\<in>set pre.
                check_field file1 file2 (cells c1) (cells c2)
                  (sort_index (cells c1)) (sort_index (cells c2))
                  (construct_fields (Multi bs)) (construct_fields mesh2) g = ([], Inr ()))
          \<and> f \<in> set (map fst (construct_fields mesh2))
          \<longrightarrow> compare_loaded file1 file2 (Multi bs) mesh2 = ([], Inl (Uncaught IndexError)))
     \<and> (construct_cells mesh1 = Inr (Some c1)
          \<and> construct_cells (Multi bs) = Inr (Some c2)
          \<and> cells_agree c1 c2
          \<and> map fst (construct_fields mesh1) = pre @ f # post
          \<and> (\<forall>g\<in>set pre.
                check_field file1 file2 (cells c1) (cells c2)
                  (sort_index (cells c1)) (sort_index (cells c2))
                  (construct_fields mesh1) (construct_fields (Multi bs)) g = ([], Inr ()))
          \<and> map_of (construct_fields mesh1) f = Some v1
          \<and> length (cells c1) \<le> length v1
          \<longrightarrow> compare_loaded file1 file2 mesh1 (Multi bs) = ([], Inl (Uncaught IndexError)))"
proof -
  let ?c = "\<lparr>nverts = v, sdim = d, cells = concat (map cells gs)\<rparr>"
  let ?vs = "concat (map (\<lambda>kb. block_values f (snd kb)) bs)"
  have cs: "construct_cells (Multi bs) = Inr (Some ?c)"
    using assms(1-3) by (rule construct_cells_Multi)
  have fs: "construct_fields (Multi bs) = concat_fields bs"
    using assms(4) by (rule construct_fields_Multi)
  from assms(5) have "f \<in> set (concat (map (\<lambda>kb. block_names (snd kb)) bs))"
    by auto
  then have "map_of (concat_fields bs) f = Some ?vs"
    by (rule map_of_concat_fields)
  then have mf: "map_of (construct_fields (Multi bs)) f = Some ?vs"
    by (simp only: fs)
  have "length ?vs < sum_list (map (\<lambda>kb. block_count (snd kb)) bs)"
    using assms(6,7) by (rule partial_field_short)
  also have "\<dots> = length (concat (map cells gs))"
    using assms(2) by (rule total_cells [symmetric])
  finally have short: "length ?vs < length (cells ?c)"
    by simp
  show ?thesis
  proof (intro conjI impI)
    from cs mf short
    show "\<exists>c vs. construct_cells (Multi bs) = Inr (Some c)
            \<and> map_of (construct_fields (Multi bs)) f = Some vs
            \<and> length vs < length (cells c)"
      by blast
  next
    assume h: "construct_cells (Multi bs) = Inr (Some c1)
          \<and> construct_cells mesh2 = Inr (Some c2)
          \<and> cells_agree c1 c2
          \<and> map fst (construct_fields (Multi bs)) = pre @ f # post
          \<and> (\<forall>g\<in>set pre.
                check_field file1 file2 (cells c1) (cells c2)
                  (sort_index (cells c1)) (sort_index (cells c2))
                  (construct_fields (Multi bs)) (construct_fields mesh2) g = ([], Inr ()))
          \<and> f \<in> set (map fst (construct_fields mesh2))"
    then have c1: "c1 = ?c"
      unfolding cs by simp
    from h obtain v2 where v2: "map_of (construct_fields mesh2) f = Some v2"
      by (cases "map_of (construct_fields mesh2) f") (auto simp: map_of_eq_None_iff)
    from short c1 have s1: "length ?vs < length (cells c1)"
      by simp
    from h show "compare_loaded file1 file2 (Multi bs) mesh2 = ([], Inl (Uncaught IndexError))"
      by (intro compare_loaded_short_field [OF _ _ _ _ _ v2 mf s1]) blast+
  next
    assume h: "construct_cells mesh1 = Inr (Some c1)
          \<and> construct_cells (Multi bs) = Inr (Some c2)
          \<and> cells_agree c1 c2
          \<and> map fst (construct_fields mesh1) = pre @ f # post
          \<and> (\<forall>g\<in>set pre.
                check_field file1 file2 (cells c1) (cells c2)
                  (sort_index (cells c1)) (sort_index (cells c2))
                  (construct_fields mesh1) (construct_fields (Multi bs)) g = ([], Inr ()))
          \<and> map_of (construct_fields mesh1) f = Some v1
          \<and> length (cells c1) \<le> length v1"
    then have c2: "c2 = ?c"
      unfolding cs by simp
    from short c2 have s2: "length ?vs < length (cells c2)"
      by simp
    from h have f1: "map_of (construct_fields mesh1) f = Some v1"
      and long: "length (cells c1) \<le> length v1"
      by blast+
    from h show "compare_loaded file1 file2 mesh1 (Multi bs) = ([], Inl (Uncaught IndexError))"
      by (intro compare_loaded_short_second [OF _ _ _ _ _ mf f1 long s2]) blast+
  qed
qed

theorem partial_field_index_error_witness:
  "(\<exists>c vs. construct_cells (Multi blocks_partial) = Inr (Some c)
        \<and> map_of (construct_fields (Multi blocks_partial)) ''pressure'' = Some vs
        \<and> length vs < length (cells c))
   \<and> compare_loaded ''x.h5'' ''y.h5'' (Multi blocks_partial) mesh_a
        = ([], Inl (Uncaught IndexError))
   \<and> compare_loaded ''x.h5'' ''y.h5'' mesh_a (Multi blocks_partial)
        = ([], Inl (Uncaught IndexError))
   \<and> exit_status (Inl (Uncaught IndexError)) = 1"
proof -
  let ?g0 = "\<lparr>nverts = 3, sdim = 2,
      cells = [[[0, 0], [0x3FF0000000000000, 0], [0, 0x3FF0000000000000 :: f64]]]\<rparr>"
  let ?g1 = "\<lparr>nverts = 3, sdim = 2,
      cells = [[[0x3FF0000000000000, 0], [0x3FF0000000000000, 0x3FF0000000000000],
                [0, 0x3FF0000000000000 :: f64]]]\<rparr>"
  have a1: "blocks_partial \<noteq> []"
    by (simp add: blocks_partial_def)
  have a2: "map (\<lambda>kb. block_cells (snd kb)) blocks_partial = map Inr [?g0, ?g1]"
    by code_simp
  have a3: "\<forall>g\<in>set [?g0, ?g1]. nverts g = 3 \<and> sdim g = 2"
    by simp
  have a4: "\<forall>kb\<in>set blocks_partial. distinct (block_names (snd kb))"
    by (simp add: blocks_partial_def block_names_def)
  have a5: "\<exists>kb\<in>set blocks_partial. ''pressure'' \<in> set (block_names (snd kb))"
    by (simp add: blocks_partial_def block_names_def)
  have n: "map (\<lambda>kb. block_count (snd kb)) blocks_partial = [1, 1]"
    by code_simp
  have a6: "\<forall>kb\<in>set blocks_partial. ''pressure'' \<in> set (block_names (snd kb)) \<longrightarrow>
           length (block_values ''pressure'' (snd kb)) = block_count (snd kb)"
    using n by (simp add: blocks_partial_def block_names_def block_values_def values_of_def)
  have a7: "\<exists>kb\<in>set blocks_partial.
      ''pressure'' \<notin> set (block_names (snd kb)) \<and> 0 < block_count (snd kb)"
    using n by (simp add: blocks_partial_def block_names_def)
  note th = partial_field_index_error [OF a1 a2 a3 a4 a5 a6 a7]
  have cp: "construct_cells (Multi blocks_partial) = Inr (Some cells_a)"
    and ca: "construct_cells mesh_a = Inr (Some cells_a)"
    and agree: "cells_agree cells_a cells_a"
    and fp: "map fst (construct_fields (Multi blocks_partial)) = [] @ ''pressure'' # []"
    and fa: "map fst (construct_fields mesh_a) = [] @ ''pressure'' # []"
    and va: "map_of (construct_fields mesh_a) ''pressure''
        = Some [0x3FF0000000000000, 0x4000000000000000]"
    and la: "length (cells cells_a) \<le> length [0x3FF0000000000000, 0x4000000000000000 :: f64]"
    by code_simp+
  have r1: "compare_loaded ''x.h5'' ''y.h5'' (Multi blocks_partial) mesh_a
        = ([], Inl (Uncaught IndexError))"
    using th [THEN conjunct2, THEN conjunct1, THEN mp,
        of cells_a mesh_a cells_a "[]" "[]" "''x.h5''" "''y.h5''"] cp ca agree fp fa
    by simp
  have r2: "compare_loaded ''x.h5'' ''y.h5'' mesh_a (Multi blocks_partial)
        = ([], Inl (Uncaught IndexError))"
    using th [THEN conjunct2, THEN conjunct2, THEN mp,
        of mesh_a cells_a cells_a "[]" "[]" "''x.h5''" "''y.h5''"
           "[0x3FF0000000000000, 0x4000000000000000]"] cp ca agree fp fa va la
    by simp
  from th [THEN conjunct1] r1 r2 show ?thesis
    by simp
qed

subsection \<open>Invariance under a permutation of the cells\<close>

text \<open>
  Claim C1, as stated, holds for every mesh and every permutation of its cells. The
  index arrays pair the cells of the two files by their bytes alone. When two cells have
  the same bytes, the sort leaves them in the order of their file: \<open>mesh_dup\<close> against
  \<open>mesh_dup_swapped\<close>, which is \<open>mesh_dup\<close> permuted, has the pressure \<open>1.0\<close> paired with \<open>2.0\<close>
  and is reported as not the same. And a NaN among the coordinates differs from itself:
  \<open>mesh_nan_point\<close> against itself, the identity being a permutation, ends at the
  comparison of the cells.
\<close>

theorem duplicate_cells_break_invariance:
  "construct_cells mesh_dup =
     Inr (Some \<lparr>nverts = 3, sdim = 2, cells =
       [[[0, 0], [0x3FF0000000000000, 0], [0, 0x3FF0000000000000]],
        [[0, 0], [0x3FF0000000000000, 0], [0, 0x3FF0000000000000]]]\<rparr>)
   \<and> construct_cells mesh_dup_swapped =
     Inr (Some \<lparr>nverts = 3, sdim = 2, cells =
       reorder [[[0, 0], [0x3FF0000000000000, 0], [0, 0x3FF0000000000000]],
                [[0, 0], [0x3FF0000000000000, 0], [0, 0x3FF0000000000000]]] [1, 0]\<rparr>)
   \<and> construct_fields mesh_dup = [(''pressure'', [0x3FF0000000000000, 0x4000000000000000])]
   \<and> construct_fields mesh_dup_swapped =
     [(''pressure'', reorder [0x3FF0000000000000, 0x4000000000000000] [1, 0])]
   \<and> compare_loaded ''x.h5'' ''y.h5'' mesh_dup mesh_dup_swapped =
     ([PrintValues [0x3FF0000000000000, 0x4000000000000000]
                   [0x4000000000000000, 0x3FF0000000000000]
                   [0x3FF0000000000000, 0x3FF0000000000000],
       PrintCells [[[0, 0], [0x3FF0000000000000, 0], [0, 0x3FF0000000000000]],
                   [[0, 0], [0x3FF0000000000000, 0], [0, 0x3FF0000000000000]]]
                  [[[0, 0], [0x3FF0000000000000, 0], [0, 0x3FF0000000000000]],
                   [[0, 0], [0x3FF0000000000000, 0], [0, 0x3FF0000000000000]]],
       Print ''pressure is not the same''],
      Inl (SysExit None))
   \<and> compare_loaded ''x.h5'' ''y.h5'' mesh_nan_point mesh_nan_point =
     ([Print ''cells are not the same''],
      Inl (SysExit (Some ''files x.h5 and y.h5 are different'')))"
  by code_simp

text \<open>
  Claim C1, amended. Take a mesh whose cells have distinct bytes and no NaN among their
  coordinates, with one value per cell in every field, and a permutation \<open>p\<close> of the
  positions of its cells. The comparison of the mesh with the mesh whose cell \<open>i\<close> is the
  cell \<open>p ! i\<close> of the first, and whose fields are permuted in the same way, opens the two
  files, prints that they are the same and returns.
\<close>

theorem permutation_invariance:
  assumes "fs file1 = Some (Some mesh1)" and "fs file2 = Some (Some mesh2)"
    and "construct_cells mesh1 = Inr (Some c1)"
    and "construct_cells mesh2 = Inr (Some c2)"
    and "mset p = mset [0..<length (cells c1)]"
    and "c2 = c1\<lparr>cells := map (\<lambda>i. cells c1 ! i) p\<rparr>"
    and "construct_fields mesh2
        = map (\<lambda>(f, v). (f, map (\<lambda>i. v ! i) p)) (construct_fields mesh1)"
    and "\<forall>fv\<in>set (construct_fields mesh1). length (snd fv) = length (cells c1)"
    and "distinct (map tobytes (cells c1))"
    and "\<forall>c\<in>set (cells c1). \<forall>v\<in>set c. \<forall>a\<in>set v. \<not> f64_isnan a"
  shows "compare_meshes fs file1 file2
           = ([Opened file1, Opened file2, Print (same_msg file1 file2)], Inr ())
     \<and> exit_status (snd (compare_meshes fs file1 file2)) = 0"
proof -
  have "compare_loaded file1 file2 mesh1 mesh2 = ([Print (same_msg file1 file2)], Inr ())"
    using assms(3-10) by (rule permuted_run)
  then show ?thesis
    by (simp add: compare_meshes_loaded [OF assms(1,2)])
qed

theorem permutation_invariance_witness:
  "compare_meshes example_files ''a.h5'' ''b.h5''
     = ([Opened ''a.h5'', Opened ''b.h5'', Print ''files a.h5 and b.h5 are the same''], Inr ())
   \<and> exit_status (snd (compare_meshes example_files ''a.h5'' ''b.h5'')) = 0"
proof -
  have f1: "example_files ''a.h5'' = Some (Some mesh_a)"
    and f2: "example_files ''b.h5'' = Some (Some mesh_b)"
    by (simp_all add: example_files_def)
  have c1: "construct_cells mesh_a = Inr (Some cells_a)"
    by code_simp
  have c2: "construct_cells mesh_b = Inr (Some (cells_a\<lparr>cells := map (\<lambda>i. cells cells_a ! i) [1, 0]\<rparr>))"
    by code_simp
  have p: "mset [1, 0] = mset [0..<length (cells cells_a)]"
    by (simp add: cells_a_def upt_rec)
  have fl: "construct_fields mesh_b
      = map (\<lambda>(f, v). (f, map (\<lambda>i. v ! i) [1, 0])) (construct_fields mesh_a)"
    by (simp add: mesh_a_def mesh_b_def)
  have sz: "\<forall>fv\<in>set (construct_fields mesh_a). length (snd fv) = length (cells cells_a)"
    by (simp add: mesh_a_def cells_a_def)
  have d: "distinct (map tobytes (cells cells_a))"
    by code_simp
  have nn: "\<forall>c\<in>set (cells cells_a). \<forall>v\<in>set c. \<forall>a\<in>set v. \<not> f64_isnan a"
    by (simp add: cells_a_def f64_isnan_def)
  from permutation_invariance [OF f1 f2 c1 c2 p refl fl sz d nn] show ?thesis
    by (simp add: same_msg_def)
qed

end
